theory Spec2Isabelle
  imports Complex_Main "HOL-Library.AList"
begin

section \<open>Ramp test validator (modules/calculations/test\_validator.py)\<close>

text \<open>
  The embedding follows \<^verbatim>\<open>test_validator.py\<close> function by function.

  Numbers. A Python or numpy float is a real number or NaN: \<open>pyfloat = real option\<close>,
  with \<open>None\<close> for NaN. Arithmetic propagates NaN and every comparison with NaN is
  false, as in IEEE 754. Rounding error and the infinities are not part of the model:
  the arithmetic is exact. Python's \<open>int\<close> is \<open>int\<close>; list lengths and indices that the
  code only ever builds from \<open>0\<close>, \<open>len\<close> and loop counters are \<open>nat\<close>.

  Dictionaries are association lists in insertion order, assigned with
  \<open>AList.update\<close> (replace in place, or append a fresh key), which is what a Python
  \<open>dict\<close> does.
\<close>

subsection \<open>Floats with NaN\<close>

type_synonym pyfloat = "real option"

definition f_sub :: "pyfloat \<Rightarrow> pyfloat \<Rightarrow> pyfloat" where
  "f_sub a b = (case a of None \<Rightarrow> None
                | Some x \<Rightarrow> (case b of None \<Rightarrow> None | Some y \<Rightarrow> Some (x - y)))"

definition f_div :: "pyfloat \<Rightarrow> pyfloat \<Rightarrow> pyfloat" where
  "f_div a b = (case a of None \<Rightarrow> None
                | Some x \<Rightarrow> (case b of None \<Rightarrow> None | Some y \<Rightarrow> Some (x / y)))"

definition f_abs :: "pyfloat \<Rightarrow> pyfloat" where
  "f_abs a = map_option abs a"

definition f_gt :: "pyfloat \<Rightarrow> real \<Rightarrow> bool" where
  "f_gt a y = (case a of None \<Rightarrow> False | Some x \<Rightarrow> x > y)"

definition f_le :: "pyfloat \<Rightarrow> real \<Rightarrow> bool" where
  "f_le a y = (case a of None \<Rightarrow> False | Some x \<Rightarrow> x \<le> y)"

text \<open>\<^verbatim>\<open>np.mean\<close>: NaN on an empty array and as soon as one element is NaN.\<close>

definition np_mean :: "pyfloat list \<Rightarrow> pyfloat" where
  "np_mean xs = (case those xs of None \<Rightarrow> None
                 | Some ys \<Rightarrow> if ys = [] then None
                             else Some (sum_list ys / real (length ys)))"

text \<open>\<^verbatim>\<open>np.std\<close> (population standard deviation, \<open>ddof = 0\<close>).\<close>

definition np_std :: "pyfloat list \<Rightarrow> pyfloat" where
  "np_std xs = (case those xs of None \<Rightarrow> None
                | Some ys \<Rightarrow> if ys = [] then None
                            else (let m = sum_list ys / real (length ys)
                                  in Some (sqrt (sum_list (map (\<lambda>y. (y - m)\<^sup>2) ys)
                                                 / real (length ys)))))"

text \<open>\<^verbatim>\<open>np.diff\<close>: consecutive differences.\<close>

fun np_diff :: "pyfloat list \<Rightarrow> pyfloat list" where
  "np_diff (a # b # rest) = f_sub b a # np_diff (b # rest)"
| "np_diff _ = []"

text \<open>\<^verbatim>\<open>np.max\<close> of a non-empty array: NaN as soon as one element is NaN.\<close>

definition np_max :: "pyfloat list \<Rightarrow> pyfloat" where
  "np_max xs = (case those xs of None \<Rightarrow> None
                | Some ys \<Rightarrow> (case ys of [] \<Rightarrow> None | y # rest \<Rightarrow> Some (fold max rest y)))"

text \<open>Python's \<^verbatim>\<open>int(x)\<close> on a finite float truncates towards zero.\<close>

definition py_int :: "real \<Rightarrow> int" where
  "py_int x = (if x \<ge> 0 then \<lfloor>x\<rfloor> else \<lceil>x\<rceil>)"

text \<open>
  Python's \<^verbatim>\<open>round(x, 1)\<close>: to one decimal, a tie going to the even neighbour.
\<close>

definition py_round1 :: "real \<Rightarrow> real" where
  "py_round1 x =
     (let y = x * 10; f = \<lfloor>y\<rfloor>; d = y - of_int f
      in (if d < 1/2 then of_int f
          else if d > 1/2 then of_int (f + 1)
          else if even f then of_int f else of_int (f + 1)) / 10)"

subsection \<open>Errors\<close>

text \<open>
  \<open>AttributeError\<close> is raised by \<^verbatim>\<open>df.columns.str\<close> when the column index does not hold
  strings. \<open>ValueError\<close> is raised by \<^verbatim>\<open>int(nan)\<close> and by \<^verbatim>\<open>np.gradient\<close> on fewer
  than two samples. \<open>KeyError\<close> is what \<^verbatim>\<open>df[name]\<close> raises for an absent label.
  \<open>Duplicate_label\<close> is not an exception of the source: selecting a label that occurs
  twice gives a two-dimensional frame in pandas, which this embedding does not follow; the
  model stops there with this value.
\<close>

datatype failure = AttributeError | ValueError | KeyError | Duplicate_label

subsection \<open>The configuration table \<^verbatim>\<open>VALIDATION_CRITERIA\<close>\<close>

text \<open>The \<^verbatim>\<open>description\<close> entries are display text and are left out.\<close>

record criterion =
  cmin :: real
  cmax :: real
  weight :: real

definition VALIDATION_CRITERIA :: "(string \<times> criterion) list" where
  "VALIDATION_CRITERIA =
     [(''duration'',        \<lparr>cmin = 300,    cmax = 3600,   weight = 15/100\<rparr>),
      (''steps_count'',     \<lparr>cmin = 3,      cmax = 20,     weight = 20/100\<rparr>),
      (''monotonicity'',    \<lparr>cmin = 70/100, cmax = 1,      weight = 25/100\<rparr>),
      (''data_gaps'',       \<lparr>cmin = 0,      cmax = 5,      weight = 15/100\<rparr>),
      (''cadence'',         \<lparr>cmin = 60,     cmax = 120,    weight = 10/100\<rparr>),
      (''power_stability'', \<lparr>cmin = 0,      cmax = 15/100, weight = 15/100\<rparr>)]"

text \<open>
  \<^verbatim>\<open>VALIDATION_CRITERIA[name]\<close> for the literal keys the validator uses; all six are in the
  table, so the subscript never raises there.
\<close>

definition cfg :: "string \<Rightarrow> criterion" where
  "cfg name = the (map_of VALIDATION_CRITERIA name)"

text \<open>\<^verbatim>\<open>VALIDATION_CRITERIA.get(criterion, {}).get("weight", 0.1)\<close>\<close>

definition weight_of :: "string \<Rightarrow> real" where
  "weight_of name = (case map_of VALIDATION_CRITERIA name of
                       None \<Rightarrow> 1/10 | Some c \<Rightarrow> weight c)"

subsection \<open>\<^verbatim>\<open>_calculate_quality_score\<close>\<close>

text \<open>The loop over \<^verbatim>\<open>criteria.items()\<close>; the state is (total\_weight, weighted\_score).\<close>

fun score_loop :: "(string \<times> bool) list \<Rightarrow> real \<times> real \<Rightarrow> real \<times> real" where
  "score_loop [] acc = acc"
| "score_loop ((name, passed) # rest) (total_weight, weighted_score) =
     score_loop rest (total_weight + weight_of name,
                      if passed then weighted_score + weight_of name else weighted_score)"

definition calculate_quality_score :: "(string \<times> bool) list \<Rightarrow> real" where
  "calculate_quality_score criteria =
     (if criteria = [] then 0
      else (case score_loop criteria (0, 0) of
              (total_weight, weighted_score) \<Rightarrow>
                if total_weight = 0 then 0
                else py_round1 ((weighted_score / total_weight) * 100)))"

subsection \<open>Smoothing: \<^verbatim>\<open>rolling(window, center=True).mean().bfill().ffill()\<close>\<close>

text \<open>
  pandas places the window of sample \<open>i\<close> at \<open>[e - w, e)\<close> with
  \<open>e = i + 1 + (w - 1) div 2\<close>, and with the default \<open>min_periods = w\<close> the mean is NaN
  unless the whole window lies inside the series and holds no NaN.
\<close>

definition rolling_mean :: "nat \<Rightarrow> pyfloat list \<Rightarrow> pyfloat list" where
  "rolling_mean w xs =
     map (\<lambda>i. let e = i + 1 + (w - 1) div 2
              in if w \<le> e \<and> e \<le> length xs then np_mean (take w (drop (e - w) xs))
                 else None)
         [0..<length xs]"

text \<open>\<^verbatim>\<open>bfill\<close>: a NaN takes the next value that is not NaN, if there is one.\<close>

fun bfill :: "pyfloat list \<Rightarrow> pyfloat list" where
  "bfill [] = []"
| "bfill (x # xs) =
     (let r = bfill xs
      in (case x of Some v \<Rightarrow> Some v
          | None \<Rightarrow> (case r of [] \<Rightarrow> None | y # _ \<Rightarrow> y)) # r)"

text \<open>\<^verbatim>\<open>ffill\<close>: a NaN takes the last value before it that is not NaN, if there is one.\<close>

fun ffill_from :: "pyfloat \<Rightarrow> pyfloat list \<Rightarrow> pyfloat list" where
  "ffill_from prev [] = []"
| "ffill_from prev (x # xs) =
     (case x of Some v \<Rightarrow> Some v # ffill_from (Some v) xs
      | None \<Rightarrow> prev # ffill_from prev xs)"

definition ffill :: "pyfloat list \<Rightarrow> pyfloat list" where
  "ffill xs = ffill_from None xs"

definition smooth :: "nat \<Rightarrow> pyfloat list \<Rightarrow> pyfloat list" where
  "smooth w pw = ffill (bfill (rolling_mean w pw))"

text \<open>
  \<^verbatim>\<open>np.gradient\<close> of a one-dimensional array with unit spacing: one-sided differences at
  the two ends, central differences inside; fewer than two samples raise ValueError.
\<close>

definition np_gradient :: "pyfloat list \<Rightarrow> failure + pyfloat list" where
  "np_gradient s =
     (let n = length s
      in if n < 2 then Inl ValueError
         else Inr (map (\<lambda>i. if i = 0 then f_sub (s ! 1) (s ! 0)
                            else if i = n - 1 then f_sub (s ! (n - 1)) (s ! (n - 2))
                            else f_div (f_sub (s ! (i + 1)) (s ! (i - 1))) (Some 2))
                       [0..<n]))"

text \<open>The slice \<^verbatim>\<open>power[start:end]\<close> for \<open>0 \<le> start\<close>, \<open>0 \<le> end\<close>.\<close>

definition slice :: "'a list \<Rightarrow> nat \<Rightarrow> nat \<Rightarrow> 'a list" where
  "slice xs start stop = take (stop - start) (drop start xs)"

subsection \<open>\<^verbatim>\<open>_detect_power_steps\<close>\<close>

text \<open>
  A step is the dictionary \<^verbatim>\<open>{"start", "end", "duration", "avg_power"}\<close>. The duration
  is the integer difference \<^verbatim>\<open>end - start\<close>, kept as an \<open>int\<close> so that the subtraction
  is Python's.
\<close>

record step =
  step_start :: nat
  step_end :: nat
  step_duration :: int
  step_avg_power :: pyfloat

definition step_threshold :: real where
  "step_threshold = 1/2"

text \<open>
  The scan \<^verbatim>\<open>for i in range(1, len(gradient))\<close>: the list argument is what is left of
  the gradient from index \<open>i\<close> on; the state is \<open>in_transition\<close> and \<open>step_starts\<close>.
\<close>

fun scan_transitions :: "nat \<Rightarrow> pyfloat list \<Rightarrow> nat \<Rightarrow> bool \<Rightarrow> nat list \<Rightarrow> nat list" where
  "scan_transitions msd [] i in_transition step_starts = step_starts"
| "scan_transitions msd (g # gs) i in_transition step_starts =
     (if f_gt (f_abs g) step_threshold \<and> \<not> in_transition
        then scan_transitions msd gs (i + 1) True step_starts
      else if f_le (f_abs g) step_threshold \<and> in_transition
        then scan_transitions msd gs (i + 1) False
               (if int i - int (last step_starts) \<ge> int msd
                  then step_starts @ [i] else step_starts)
      else scan_transitions msd gs (i + 1) in_transition step_starts)"

text \<open>
  The loop \<^verbatim>\<open>for i in range(len(step_starts))\<close>: the list argument is
  \<^verbatim>\<open>step_starts[i:]\<close>, so the end of a step is the next start, or \<^verbatim>\<open>len(power)\<close> for
  the last one.
\<close>

fun build_steps :: "pyfloat list \<Rightarrow> nat \<Rightarrow> nat list \<Rightarrow> step list" where
  "build_steps pw msd [] = []"
| "build_steps pw msd (start # rest) =
     (let stop = (case rest of [] \<Rightarrow> length pw | nxt # _ \<Rightarrow> nxt);
          duration = int stop - int start
      in (if duration \<ge> int msd
            then [\<lparr>step_start = start, step_end = stop, step_duration = duration,
                   step_avg_power = np_mean (slice pw start stop)\<rparr>]
            else [])
         @ build_steps pw msd rest)"

definition detect_power_steps :: "pyfloat list \<Rightarrow> nat \<Rightarrow> failure + step list" where
  "detect_power_steps pw min_step_duration =
     (if length pw < min_step_duration then Inr []
      else
        (let window = min 30 (length pw div 10);
             window = (if window < 5 then 5 else window);
             smoothed = smooth window pw
         in (case np_gradient smoothed of
               Inl e \<Rightarrow> Inl e
             | Inr gradient \<Rightarrow>
                 Inr (build_steps pw min_step_duration
                        (scan_transitions min_step_duration (drop 1 gradient) 1 False [0])))))"

subsection \<open>\<^verbatim>\<open>_calculate_monotonicity\<close>\<close>

text \<open>
  The loop \<^verbatim>\<open>for i in range(1, len(smoothed))\<close> over consecutive pairs; the state is
  (increases, total\_transitions).
\<close>

fun count_transitions :: "pyfloat list \<Rightarrow> nat \<times> nat \<Rightarrow> nat \<times> nat" where
  "count_transitions (a # b # rest) (increases, total_transitions) =
     (let diff = f_sub b a
      in if f_gt (f_abs diff) 1
           then count_transitions (b # rest)
                  (if f_gt diff 0 then increases + 1 else increases, total_transitions + 1)
           else count_transitions (b # rest) (increases, total_transitions))"
| "count_transitions _ acc = acc"

definition calculate_monotonicity :: "pyfloat list \<Rightarrow> nat \<Rightarrow> real" where
  "calculate_monotonicity pw window =
     (if length pw < window then 0
      else (case count_transitions (smooth window pw) (0, 0) of
              (increases, total_transitions) \<Rightarrow>
                if total_transitions = 0 then 1
                else real increases / real total_transitions))"

subsection \<open>\<^verbatim>\<open>_detect_max_gap\<close>\<close>

definition detect_max_gap :: "pyfloat list \<Rightarrow> failure + int" where
  "detect_max_gap time =
     (if length time < 2 then Inr 0
      else
        (let diffs = np_diff time;
             expected_diff = Some 1;
             gaps = map (\<lambda>d. f_sub d expected_diff) diffs
         in if length gaps > 0
              then (case np_max gaps of
                      None \<Rightarrow> Inl ValueError
                    | Some m \<Rightarrow> Inr (max 0 (py_int m)))
              else Inr (max 0 0)))"

subsection \<open>\<^verbatim>\<open>_calculate_power_stability\<close>\<close>

text \<open>The loop over the steps that collects \<^verbatim>\<open>cvs\<close>.\<close>

fun collect_cvs :: "pyfloat list \<Rightarrow> step list \<Rightarrow> pyfloat list" where
  "collect_cvs pw [] = []"
| "collect_cvs pw (s # rest) =
     (let step_power = slice pw (step_start s) (step_end s)
      in (if length step_power > 1
            then (let mean_p = np_mean step_power; std_p = np_std step_power
                  in if f_gt mean_p 0 then [f_div std_p mean_p] else [])
            else [])
         @ collect_cvs pw rest)"

definition calculate_power_stability :: "pyfloat list \<Rightarrow> step list \<Rightarrow> pyfloat" where
  "calculate_power_stability pw steps =
     (if steps = [] then Some 1
      else (let cvs = collect_cvs pw steps
            in if cvs = [] then Some 0 else np_mean cvs))"

subsection \<open>Strings: \<^verbatim>\<open>str.lower\<close> and \<^verbatim>\<open>str.strip\<close>\<close>

text \<open>
  A character is a Unicode code point below 256 (the type \<open>char\<close> has no other), so a
  string is a Python \<^verbatim>\<open>str\<close> over Latin-1. On these code points \<^verbatim>\<open>str.lower\<close> maps
  \<open>A\<close> to \<open>Z\<close> and the letters \<open>0xC0\<close> to \<open>0xDE\<close> other than the multiplication
  sign \<open>0xD7\<close> to the code point 32 above, and leaves every other character alone. The
  white space of \<^verbatim>\<open>str.isspace\<close>, which \<^verbatim>\<open>str.strip\<close> removes, is the blank,
  \<open>\t \n \v \f \r\<close>, the separators \<open>0x1C\<close> to \<open>0x1F\<close>, the next-line control \<open>0x85\<close>
  and the no-break space \<open>0xA0\<close>.
\<close>

definition upper_chars :: "char list" where
  "upper_chars =
     ''ABCDEFGHIJKLMNOPQRSTUVWXYZ''
     @ [CHR 0xC0, CHR 0xC1, CHR 0xC2, CHR 0xC3, CHR 0xC4, CHR 0xC5, CHR 0xC6, CHR 0xC7,
        CHR 0xC8, CHR 0xC9, CHR 0xCA, CHR 0xCB, CHR 0xCC, CHR 0xCD, CHR 0xCE, CHR 0xCF,
        CHR 0xD0, CHR 0xD1, CHR 0xD2, CHR 0xD3, CHR 0xD4, CHR 0xD5, CHR 0xD6,
        CHR 0xD8, CHR 0xD9, CHR 0xDA, CHR 0xDB, CHR 0xDC, CHR 0xDD, CHR 0xDE]"

definition lower_chars :: "char list" where
  "lower_chars =
     ''abcdefghijklmnopqrstuvwxyz''
     @ [CHR 0xE0, CHR 0xE1, CHR 0xE2, CHR 0xE3, CHR 0xE4, CHR 0xE5, CHR 0xE6, CHR 0xE7,
        CHR 0xE8, CHR 0xE9, CHR 0xEA, CHR 0xEB, CHR 0xEC, CHR 0xED, CHR 0xEE, CHR 0xEF,
        CHR 0xF0, CHR 0xF1, CHR 0xF2, CHR 0xF3, CHR 0xF4, CHR 0xF5, CHR 0xF6,
        CHR 0xF8, CHR 0xF9, CHR 0xFA, CHR 0xFB, CHR 0xFC, CHR 0xFD, CHR 0xFE]"

definition py_lower_char :: "char \<Rightarrow> char" where
  "py_lower_char c =
     (case map_of (zip upper_chars lower_chars) c of None \<Rightarrow> c | Some l \<Rightarrow> l)"

definition py_lower :: "string \<Rightarrow> string" where
  "py_lower s = map py_lower_char s"

definition is_space :: "char \<Rightarrow> bool" where
  "is_space c = (c \<in> set [CHR '' '', CHR 0x09, CHR 0x0A, CHR 0x0B, CHR 0x0C, CHR 0x0D,
                           CHR 0x1C, CHR 0x1D, CHR 0x1E, CHR 0x1F, CHR 0x85, CHR 0xA0])"

definition py_strip :: "string \<Rightarrow> string" where
  "py_strip s = rev (dropWhile is_space (rev (dropWhile is_space s)))"

subsection \<open>The table and the report\<close>

text \<open>
  A \<^verbatim>\<open>DataFrame\<close>: its labelled columns in order, \<^verbatim>\<open>len(df)\<close>, and whether its column
  index holds strings, so that \<^verbatim>\<open>df.columns.str\<close> exists. The index of a table built
  from named columns does, and so does an empty index of object type; the integer index
  of \<^verbatim>\<open>pd.DataFrame()\<close> and integer labels do not, and then \<open>string_labels\<close> is False
  and the labels listed in \<open>columns\<close> are never read. A cell is a float, NaN standing
  for a missing value.
\<close>

record dataframe =
  columns :: "(string \<times> pyfloat list) list"
  n_rows :: nat
  string_labels :: bool

text \<open>
  User-facing strings are Polish text with interpolated numbers. Each string literal or
  f-string of the validator is one constructor, carrying the values the f-string
  interpolates; how a number is printed (\<^verbatim>\<open>:.1f\<close>, \<^verbatim>\<open>:.0f\<close>) is not modelled.
\<close>

datatype message =
    Minutes_1f real                   \<comment> \<open>\<^verbatim>\<open>f"{duration_min:.1f} min"\<close>\<close>
  | Minutes_range real real           \<comment> \<open>\<^verbatim>\<open>f"{min_dur/60:.0f}-{max_dur/60:.0f} min"\<close>\<close>
  | Steps_display int                 \<comment> \<open>\<^verbatim>\<open>f"{steps_count} stopni"\<close>\<close>
  | Steps_range real real             \<comment> \<open>\<^verbatim>\<open>f"{min_steps}-{max_steps} stopni"\<close>\<close>
  | Percent_0f real                   \<comment> \<open>\<^verbatim>\<open>f"{monotonicity*100:.0f}%"\<close>\<close>
  | At_least_percent real             \<comment> \<open>\<^verbatim>\<open>f">={min_mono*100:.0f}%"\<close>\<close>
  | Percent_cv pyfloat                \<comment> \<open>\<^verbatim>\<open>f"{power_cv*100:.1f}% CV"\<close>\<close>
  | At_most_percent real              \<comment> \<open>\<^verbatim>\<open>f"<={max_cv*100:.0f}%"\<close>\<close>
  | Seconds_display int               \<comment> \<open>\<^verbatim>\<open>f"{max_gap}s"\<close>\<close>
  | At_most_seconds real              \<comment> \<open>\<^verbatim>\<open>f"<={max_gap_allowed}s"\<close>\<close>
  | Percent_in_range real             \<comment> \<open>\<^verbatim>\<open>f"{cadence_in_range*100:.0f}% w zakresie"\<close>\<close>
  | Rpm_range real real               \<comment> \<open>\<^verbatim>\<open>f"{min_cad}-{max_cad} rpm (>=80%)"\<close>\<close>
  | No_power_column                   \<comment> \<open>\<^verbatim>\<open>"Brak kolumny mocy"\<close>\<close>
  | No_time_column                    \<comment> \<open>\<^verbatim>\<open>"Brak kolumny czasu"\<close>\<close>
  | No_cadence_data                   \<comment> \<open>\<^verbatim>\<open>"Brak danych kadencji"\<close>\<close>
  | Test_too_short real               \<comment> \<open>\<^verbatim>\<open>f"Test zbyt krotki ({duration_min:.1f} min). Minimum: 5 minut."\<close>\<close>
  | Test_very_long real               \<comment> \<open>\<^verbatim>\<open>f"Test bardzo dlugi ({duration_min:.1f} min). Sprawdz czy to ramp test."\<close>\<close>
  | Too_few_steps int                 \<comment> \<open>\<^verbatim>\<open>f"Wykryto tylko {steps_count} stopni. Minimum: 3 dla wiarygodnej analizy."\<close>\<close>
  | Low_monotonicity real             \<comment> \<open>\<^verbatim>\<open>f"Niska monotonicznosc ({monotonicity*100:.0f}%). Test powinien ..."\<close>\<close>
  | High_power_variability pyfloat    \<comment> \<open>\<^verbatim>\<open>f"Wysoka zmiennosc mocy na stopniu ({power_cv*100:.1f}%). ..."\<close>\<close>
  | Data_gap int                      \<comment> \<open>\<^verbatim>\<open>f"Przerwa w danych: {max_gap}s. Moze wplynac na dokladnosc."\<close>\<close>
  | Cadence_out_of_range              \<comment> \<open>\<^verbatim>\<open>"Kadencja poza optymalnym zakresem (60-120 rpm)."\<close>\<close>
  | No_power_data                     \<comment> \<open>\<^verbatim>\<open>"Brak danych mocy - analiza nie bedzie mozliwa."\<close>\<close>

text \<open>The values stored in a detail dictionary.\<close>

datatype field =
    IntV int
  | FloatV pyfloat
  | NoneV
  | TextV message
  | StepsV "(pyfloat \<times> int) list"   \<comment> \<open>the list of \<^verbatim>\<open>{"avg_power", "duration"}\<close>\<close>

text \<open>
  The four accumulators of \<^verbatim>\<open>validate_ramp_test\<close>, and the \<^verbatim>\<open>TestValidityReport\<close>
  built from them.
\<close>

record validation =
  criteria :: "(string \<times> bool) list"
  criteria_details :: "(string \<times> (string \<times> field) list) list"
  recommendations :: "message list"
  warnings :: "message list"

record report = validation +
  status :: string
  quality_score :: real

subsection \<open>\<^verbatim>\<open>validate_ramp_test\<close>\<close>

text \<open>The labels lower-cased and then stripped, as \<^verbatim>\<open>.str.lower().str.strip()\<close> leaves them.\<close>

definition lower_strip_labels :: "dataframe \<Rightarrow> dataframe" where
  "lower_strip_labels df =
     df\<lparr>columns := map (\<lambda>(label, col). (py_strip (py_lower label), col)) (columns df)\<rparr>"

text \<open>
  Line 78, \<^verbatim>\<open>df.columns = df.columns.str.lower().str.strip()\<close>: the one mutation of the
  input. It raises when the column index does not hold strings.
\<close>

definition normalize_columns :: "dataframe \<Rightarrow> failure + dataframe" where
  "normalize_columns df =
     (if string_labels df then Inr (lower_strip_labels df) else Inl AttributeError)"

text \<open>\<^verbatim>\<open>name in df.columns\<close>\<close>

definition has_column :: "dataframe \<Rightarrow> string \<Rightarrow> bool" where
  "has_column df name = (name \<in> set (map fst (columns df)))"

text \<open>\<^verbatim>\<open>df[name]\<close>, a one-dimensional series only when the label occurs once.\<close>

definition select :: "dataframe \<Rightarrow> string \<Rightarrow> failure + pyfloat list" where
  "select df name =
     (case filter (\<lambda>c. fst c = name) (columns df) of
        [] \<Rightarrow> Inl KeyError
      | [c] \<Rightarrow> Inr (snd c)
      | _ \<Rightarrow> Inl Duplicate_label)"

text \<open>
  Lines 78 to 85, where line 78 does not raise: the table's labels are lower-cased and
  stripped, the supplied names are lower-cased, and each supplied name is looked up among
  the labels.
\<close>

record resolved =
  table :: dataframe
  power_column :: string
  time_column :: string
  cadence_column :: "string option"
  has_power :: bool
  has_time :: bool
  has_cadence :: bool

definition resolve_columns :: "dataframe \<Rightarrow> string \<Rightarrow> string \<Rightarrow> string option \<Rightarrow> resolved" where
  "resolve_columns df0 power_column0 time_column0 cadence_column0 =
     (let df = lower_strip_labels df0;
          power_col = py_lower power_column0;
          time_col = py_lower time_column0;
          cadence_col = (case cadence_column0 of
                           None \<Rightarrow> None
                         | Some c \<Rightarrow> if c \<noteq> [] then Some (py_lower c) else None)
      in \<lparr>table = df,
          power_column = power_col,
          time_column = time_col,
          cadence_column = cadence_col,
          has_power = has_column df power_col,
          has_time = has_column df time_col,
          has_cadence = (case cadence_col of
                           None \<Rightarrow> False
                         | Some c \<Rightarrow> c \<noteq> [] \<and> has_column df c)\<rparr>)"

text \<open>Lines 87 to 102: the duration criterion.\<close>

definition duration_check :: "nat \<Rightarrow> validation \<Rightarrow> validation" where
  "duration_check duration_sec st =
     (let duration_min = real duration_sec / 60;
          min_dur = cmin (cfg ''duration'');
          max_dur = cmax (cfg ''duration'')
      in st\<lparr>criteria := AList.update ''duration''
                 (min_dur \<le> real duration_sec \<and> real duration_sec \<le> max_dur) (criteria st),
            criteria_details := AList.update ''duration''
                 [(''value'', IntV (int duration_sec)),
                  (''value_display'', TextV (Minutes_1f duration_min)),
                  (''expected'', TextV (Minutes_range (min_dur / 60) (max_dur / 60)))]
                 (criteria_details st),
            recommendations :=
                 (if real duration_sec < min_dur
                    then recommendations st @ [Test_too_short duration_min]
                    else recommendations st),
            warnings :=
                 (if real duration_sec < min_dur then warnings st
                  else if real duration_sec > max_dur
                    then warnings st @ [Test_very_long duration_min]
                    else warnings st)\<rparr>)"

text \<open>
  Lines 104 to 152: the three criteria that read the power column; \<open>name\<close> is the
  resolved \<^verbatim>\<open>power_column\<close> and \<open>present\<close> is \<^verbatim>\<open>has_power\<close>.
\<close>

definition power_check :: "dataframe \<Rightarrow> string \<Rightarrow> bool \<Rightarrow> validation \<Rightarrow> failure + validation" where
  "power_check df name present st =
     (if present then
        (case select df name of
           Inl e \<Rightarrow> Inl e
         | Inr pw \<Rightarrow>
            (case detect_power_steps pw 30 of
               Inl e \<Rightarrow> Inl e
             | Inr steps \<Rightarrow>
                (let steps_count = int (length steps);
                     min_steps = cmin (cfg ''steps_count'');
                     max_steps = cmax (cfg ''steps_count'');
                     monotonicity = calculate_monotonicity pw 30;
                     min_mono = cmin (cfg ''monotonicity'');
                     power_cv = calculate_power_stability pw steps;
                     max_cv = cmax (cfg ''power_stability'')
                 in Inr (st\<lparr>
                   criteria :=
                     AList.update ''power_stability'' (f_le power_cv max_cv)
                       (AList.update ''monotonicity'' (monotonicity \<ge> min_mono)
                         (AList.update ''steps_count''
                            (min_steps \<le> of_int steps_count \<and> of_int steps_count \<le> max_steps)
                            (criteria st))),
                   criteria_details :=
                     AList.update ''power_stability''
                       [(''value'', FloatV power_cv),
                        (''value_display'', TextV (Percent_cv (map_option (\<lambda>x. x * 100) power_cv))),
                        (''expected'', TextV (At_most_percent (max_cv * 100)))]
                       (AList.update ''monotonicity''
                          [(''value'', FloatV (Some monotonicity)),
                           (''value_display'', TextV (Percent_0f (monotonicity * 100))),
                           (''expected'', TextV (At_least_percent (min_mono * 100)))]
                          (AList.update ''steps_count''
                             [(''value'', IntV steps_count),
                              (''value_display'', TextV (Steps_display steps_count)),
                              (''expected'', TextV (Steps_range min_steps max_steps)),
                              (''steps'', StepsV (map (\<lambda>s. (step_avg_power s, step_duration s)) steps))]
                             (criteria_details st))),
                   recommendations :=
                     recommendations st
                       @ (if of_int steps_count < min_steps then [Too_few_steps steps_count] else [])
                       @ (if monotonicity < min_mono then [Low_monotonicity (monotonicity * 100)] else []),
                   warnings :=
                     warnings st
                       @ (if f_gt power_cv max_cv
                            then [High_power_variability (map_option (\<lambda>x. x * 100) power_cv)]
                            else [])\<rparr>))))
      else
        Inr (st\<lparr>
          criteria :=
            AList.update ''power_stability'' False
              (AList.update ''monotonicity'' False
                (AList.update ''steps_count'' False (criteria st))),
          criteria_details :=
            AList.update ''steps_count'' [(''value'', IntV 0), (''error'', TextV No_power_column)]
              (criteria_details st),
          recommendations := recommendations st @ [No_power_data]\<rparr>))"

text \<open>Lines 154 to 168: the data gap criterion.\<close>

definition time_check :: "dataframe \<Rightarrow> string \<Rightarrow> bool \<Rightarrow> validation \<Rightarrow> failure + validation" where
  "time_check df name present st =
     (if present then
        (case select df name of
           Inl e \<Rightarrow> Inl e
         | Inr time \<Rightarrow>
            (case detect_max_gap time of
               Inl e \<Rightarrow> Inl e
             | Inr max_gap \<Rightarrow>
                (let max_gap_allowed = cmax (cfg ''data_gaps'')
                 in Inr (st\<lparr>
                   criteria := AList.update ''data_gaps'' (of_int max_gap \<le> max_gap_allowed) (criteria st),
                   criteria_details := AList.update ''data_gaps''
                       [(''value'', IntV max_gap),
                        (''value_display'', TextV (Seconds_display max_gap)),
                        (''expected'', TextV (At_most_seconds max_gap_allowed))]
                       (criteria_details st),
                   warnings :=
                     (if of_int max_gap > max_gap_allowed
                        then warnings st @ [Data_gap max_gap] else warnings st)\<rparr>))))
      else
        Inr (st\<lparr>
          criteria := AList.update ''data_gaps'' True (criteria st),
          criteria_details := AList.update ''data_gaps''
              [(''value'', IntV 0), (''note'', TextV No_time_column)] (criteria_details st)\<rparr>))"

text \<open>
  Lines 170 to 190: the cadence criterion. \<^verbatim>\<open>dropna\<close> keeps the cells that are not NaN;
  the mean of the boolean series is the fraction of the cells in range.
\<close>

definition dropna :: "pyfloat list \<Rightarrow> real list" where
  "dropna col = List.map_filter id col"

definition cadence_check :: "dataframe \<Rightarrow> string option \<Rightarrow> bool \<Rightarrow> validation \<Rightarrow> failure + validation" where
  "cadence_check df name_opt present st =
     (let no_data = st\<lparr>
            criteria := AList.update ''cadence'' True (criteria st),
            criteria_details := AList.update ''cadence''
                [(''value'', NoneV), (''note'', TextV No_cadence_data)] (criteria_details st)\<rparr>
      in if present then
           (case name_opt of
              None \<Rightarrow> Inl KeyError
            | Some name \<Rightarrow>
               (case select df name of
                  Inl e \<Rightarrow> Inl e
                | Inr col \<Rightarrow>
                   (let cadence = dropna col
                    in if length cadence > 0 then
                         (let min_cad = cmin (cfg ''cadence'');
                              max_cad = cmax (cfg ''cadence'');
                              cadence_in_range =
                                real (length (filter (\<lambda>c. c \<ge> min_cad \<and> c \<le> max_cad) cadence))
                                  / real (length cadence)
                          in Inr (st\<lparr>
                            criteria := AList.update ''cadence'' (cadence_in_range \<ge> 8/10) (criteria st),
                            criteria_details := AList.update ''cadence''
                                [(''value'', FloatV (Some cadence_in_range)),
                                 (''value_display'', TextV (Percent_in_range (cadence_in_range * 100))),
                                 (''expected'', TextV (Rpm_range min_cad max_cad))]
                                (criteria_details st),
                            warnings :=
                              (if cadence_in_range < 8/10
                                 then warnings st @ [Cadence_out_of_range] else warnings st)\<rparr>))
                       else Inr no_data)))
         else Inr no_data)"

text \<open>Lines 194 to 199: the status.\<close>

definition classify :: "real \<Rightarrow> (string \<times> bool) list \<Rightarrow> string" where
  "classify score crit =
     (if score \<ge> 80 \<and> list_all snd crit then ''valid''
      else if score \<ge> 50 then ''conditional''
      else ''invalid'')"

text \<open>
  The validator returns its report, or the failure that ends the call, together with the
  table as the call leaves it: the column labels are rewritten before anything else, and
  they are left as they were when that first statement raises.
\<close>

definition validate_ramp_test ::
  "dataframe \<Rightarrow> string \<Rightarrow> string \<Rightarrow> string option \<Rightarrow> (failure + report) \<times> dataframe" where
  "validate_ramp_test df0 power_column0 time_column0 cadence_column0 =
     (case normalize_columns df0 of
        Inl e \<Rightarrow> (Inl e, df0)
      | Inr df \<Rightarrow>
         (let rc = resolve_columns df0 power_column0 time_column0 cadence_column0;
              st0 = \<lparr>criteria = [], criteria_details = [], recommendations = [], warnings = []\<rparr>;
              st1 = duration_check (n_rows df) st0
          in ((case power_check df (power_column rc) (has_power rc) st1 of
                Inl e \<Rightarrow> Inl e
              | Inr st2 \<Rightarrow>
                 (case time_check df (time_column rc) (has_time rc) st2 of
                    Inl e \<Rightarrow> Inl e
                  | Inr st3 \<Rightarrow>
                     (case cadence_check df (cadence_column rc) (has_cadence rc) st3 of
                        Inl e \<Rightarrow> Inl e
                      | Inr st4 \<Rightarrow>
                         (let score = calculate_quality_score (criteria st4)
                          in Inr \<lparr>criteria = criteria st4,
                                  criteria_details = criteria_details st4,
                                  recommendations = recommendations st4,
                                  warnings = warnings st4,
                                  status = classify score (criteria st4),
                                  quality_score = score\<rparr>)))),
              df)))"

subsection \<open>The quality score as the specification words it\<close>

text \<open>The six criterion names, in the order of the configuration table.\<close>

definition criterion_names :: "string list" where
  "criterion_names = map fst VALIDATION_CRITERIA"

text \<open>
  The score in the specification's words: 100 times the sum of the weights of the criteria
  that passed, divided by the sum of all six weights, rounded to one decimal.
\<close>

definition spec_quality_score :: "(string \<times> bool) list \<Rightarrow> real" where
  "spec_quality_score crit =
     py_round1 (100 * sum_list (map (\<lambda>k. weight (cfg k))
                                   (filter (\<lambda>k. map_of crit k = Some True) criterion_names))
                    / sum_list (map (\<lambda>k. weight (cfg k)) criterion_names))"

subsection \<open>Auxiliary definitions for the verification\<close>

text \<open>The empty accumulators the validator starts from.\<close>

definition initial :: validation where
  "initial = \<lparr>criteria = [], criteria_details = [], recommendations = [], warnings = []\<rparr>"

text \<open>A two-sample table with a time column only, and the report the validator gives for it.\<close>

definition time_only_table :: dataframe where
  "time_only_table = \<lparr>columns = [(''time'', [Some 0, Some 1])], n_rows = 2, string_labels = True\<rparr>"

definition time_only_report :: report where
  "time_only_report =
     \<lparr>criteria = [(''duration'', False), (''steps_count'', False), (''monotonicity'', False),
                  (''power_stability'', False), (''data_gaps'', True), (''cadence'', True)],
      criteria_details =
        [(''duration'', [(''value'', IntV 2), (''value_display'', TextV (Minutes_1f (1/30))),
                         (''expected'', TextV (Minutes_range 5 60))]),
         (''steps_count'', [(''value'', IntV 0), (''error'', TextV No_power_column)]),
         (''data_gaps'', [(''value'', IntV 0), (''value_display'', TextV (Seconds_display 0)),
                          (''expected'', TextV (At_most_seconds 5))]),
         (''cadence'', [(''value'', NoneV), (''note'', TextV No_cadence_data)])],
      recommendations = [Test_too_short (1/30), No_power_data],
      warnings = [],
      status = ''invalid'',
      quality_score = 25\<rparr>"

subsection \<open>The largest gap as the specification words it\<close>

text \<open>
  The specification's largest gap: the largest value of (consecutive difference - 1) over
  all intervals, floored at 0, and 0 for fewer than two samples. It is a real number.
\<close>

definition spec_max_gap :: "real list \<Rightarrow> real" where
  "spec_max_gap ts =
     (if length ts < 2 then 0
      else max 0 (Max (set (map (\<lambda>(a, b). b - a - 1) (zip ts (tl ts))))))"

subsection \<open>Well-formed and contiguous step lists\<close>

text \<open>What the specification asks of each returned step.\<close>

definition step_ok :: "nat \<Rightarrow> step \<Rightarrow> bool" where
  "step_ok msd s = (step_start s < step_end s
                    \<and> step_duration s = int (step_end s) - int (step_start s)
                    \<and> step_duration s \<ge> int msd)"

text \<open>
  \<open>chain_end a steps = Some e\<close> says that the steps are contiguous from index \<open>a\<close> to index
  \<open>e\<close>: the first starts at \<open>a\<close>, each starts where the one before ends, the last ends at \<open>e\<close>.
\<close>

fun chain_end :: "nat \<Rightarrow> step list \<Rightarrow> nat option" where
  "chain_end a [] = Some a"
| "chain_end a (s # ss) = (if step_start s = a then chain_end (step_end s) ss else None)"

text \<open>
  Two small power series, with the step lists the segmenter finds in them for a minimum
  step duration of 3 and of 5 samples.
\<close>

definition two_level_power :: "pyfloat list" where
  "two_level_power = replicate 6 (Some 0) @ replicate 6 (Some 10)"

definition two_level_steps :: "step list" where
  "two_level_steps =
     [\<lparr>step_start = 0, step_end = 9, step_duration = 9, step_avg_power = Some (10 / 3)\<rparr>,
      \<lparr>step_start = 9, step_end = 12, step_duration = 3, step_avg_power = Some 10\<rparr>]"

definition three_level_power :: "pyfloat list" where
  "three_level_power = replicate 12 (Some 0) @ replicate 12 (Some 10) @ replicate 3 (Some 30)"

definition three_level_steps :: "step list" where
  "three_level_steps =
     [\<lparr>step_start = 0, step_end = 15, step_duration = 15, step_avg_power = Some 2\<rparr>,
      \<lparr>step_start = 15, step_end = 25, step_duration = 10, step_avg_power = Some 12\<rparr>]"

text \<open>
  The invariant of the scan: the boundaries start with 0, lie below the current index, and
  each is at least \<open>min_step_duration\<close> (and at least one sample) after the one before.
\<close>

definition spaced :: "nat \<Rightarrow> nat \<Rightarrow> nat \<Rightarrow> bool" where
  "spaced msd a b = (a < b \<and> a + msd \<le> b)"

definition boundaries_ok :: "nat \<Rightarrow> nat \<Rightarrow> nat list \<Rightarrow> bool" where
  "boundaries_ok msd i bs =
     (bs \<noteq> [] \<and> hd bs = 0 \<and> sorted_wrt (spaced msd) bs \<and> list_all (\<lambda>a. a < i) bs)"

subsection \<open>Monotonicity as the specification words it, and a two-sample table with a power column\<close>

text \<open>
  A two-sample table with a power and a time column (the power label in mixed case, with
  a trailing blank), and the report the validator gives for it.
\<close>

definition short_power_table :: dataframe where
  "short_power_table =
     \<lparr>columns = [(''Watts '', [Some 100, Some 110]), (''time'', [Some 0, Some 1])], n_rows = 2, string_labels = True\<rparr>"

definition short_power_report :: report where
  "short_power_report =
     \<lparr>criteria = [(''duration'', False), (''steps_count'', False), (''monotonicity'', False),
                  (''power_stability'', False), (''data_gaps'', True), (''cadence'', True)],
      criteria_details =
        [(''duration'', [(''value'', IntV 2), (''value_display'', TextV (Minutes_1f (1/30))),
                         (''expected'', TextV (Minutes_range 5 60))]),
         (''steps_count'', [(''value'', IntV 0), (''value_display'', TextV (Steps_display 0)),
                            (''expected'', TextV (Steps_range 3 20)), (''steps'', StepsV [])]),
         (''monotonicity'', [(''value'', FloatV (Some 0)), (''value_display'', TextV (Percent_0f 0)),
                             (''expected'', TextV (At_least_percent 70))]),
         (''power_stability'', [(''value'', FloatV (Some 1)),
                                (''value_display'', TextV (Percent_cv (Some 100))),
                                (''expected'', TextV (At_most_percent 15))]),
         (''data_gaps'', [(''value'', IntV 0), (''value_display'', TextV (Seconds_display 0)),
                          (''expected'', TextV (At_most_seconds 5))]),
         (''cadence'', [(''value'', NoneV), (''note'', TextV No_cadence_data)])],
      recommendations = [Test_too_short (1/30), Too_few_steps 0, Low_monotonicity 0],
      warnings = [High_power_variability (Some 100)],
      status = ''invalid'',
      quality_score = 25\<rparr>"

text \<open>A series that rises and then falls.\<close>

definition zigzag_power :: "pyfloat list" where
  "zigzag_power = map Some [1, 2, 3, 4, 8, 20, 1, 1, 1]"

text \<open>
  The significant transitions of a smoothed series: the consecutive differences whose
  absolute value is above 1. The score in the specification's words is the fraction of
  the positive ones, and 1 when there is none.
\<close>

definition significant :: "pyfloat list \<Rightarrow> pyfloat list" where
  "significant smoothed = filter (\<lambda>d. f_gt (f_abs d) 1) (np_diff smoothed)"

definition spec_monotonicity :: "pyfloat list \<Rightarrow> real" where
  "spec_monotonicity smoothed =
     (if significant smoothed = [] then 1
      else real (length (filter (\<lambda>d. f_gt d 0) (significant smoothed)))
             / real (length (significant smoothed)))"

subsection \<open>Power stability as the specification words it\<close>

text \<open>
  A step qualifies for a coefficient of variation when it has more than one sample and a
  positive mean power; the score in the specification's words is 1.0 without steps, 0.0
  when no step qualifies, and the mean of the coefficients of variation otherwise.
\<close>

definition qualifies :: "pyfloat list \<Rightarrow> step \<Rightarrow> bool" where
  "qualifies pw s =
     (length (slice pw (step_start s) (step_end s)) > 1
      \<and> f_gt (np_mean (slice pw (step_start s) (step_end s))) 0)"

definition step_cv :: "pyfloat list \<Rightarrow> step \<Rightarrow> pyfloat" where
  "step_cv pw s =
     f_div (np_std (slice pw (step_start s) (step_end s)))
           (np_mean (slice pw (step_start s) (step_end s)))"

definition spec_power_stability :: "pyfloat list \<Rightarrow> step list \<Rightarrow> pyfloat" where
  "spec_power_stability pw steps =
     (if steps = [] then Some 1
      else if filter (qualifies pw) steps = [] then Some 0
      else np_mean (map (step_cv pw) (filter (qualifies pw) steps)))"

text \<open>A single step over the first two samples.\<close>

definition one_step :: "step list" where
  "one_step = [\<lparr>step_start = 0, step_end = 2, step_duration = 2, step_avg_power = Some 2\<rparr>]"

subsection \<open>Matching a label against a supplied name, as the specification words it\<close>

text \<open>
  A label matches a supplied name when both are equal after lower-casing and trimming.
\<close>

definition matches :: "string \<Rightarrow> string \<Rightarrow> bool" where
  "matches label name = (py_strip (py_lower label) = py_strip (py_lower name))"


text \<open>
  The column resolver in the specification's words: a supplied name finds a column when
  some label of the table matches it.
\<close>

definition spec_has_column :: "dataframe \<Rightarrow> string \<Rightarrow> bool" where
  "spec_has_column df name = list_ex (\<lambda>l. matches l name) (map fst (columns df))"

subsection \<open>Singly selected and complete columns, and the cadence criterion as the specification words it\<close>

text \<open>
  A supplied name selects at most one column: at most one label of the table equals the
  lower-cased name once the label is lower-cased and trimmed. Then \<^verbatim>\<open>df[name]\<close> is a
  one-dimensional series. Labels that collide with each other but not with the name do not
  matter.
\<close>

definition selected_once :: "dataframe \<Rightarrow> string \<Rightarrow> bool" where
  "selected_once df name =
     (length (filter (\<lambda>c. py_strip (py_lower (fst c)) = py_lower name) (columns df)) \<le> 1)"

text \<open>The column that a supplied name resolves to has no missing value.\<close>

definition complete_column :: "dataframe \<Rightarrow> string \<Rightarrow> bool" where
  "complete_column df name =
     list_all (\<lambda>c. py_strip (py_lower (fst c)) = py_lower name \<longrightarrow> list_all (\<lambda>x. x \<noteq> None) (snd c))
              (columns df)"

text \<open>
  The cadence criterion in the specification's words: no cadence value is left after
  dropping the missing ones, or at least 80 percent of them lie in [60, 120].
\<close>

definition cadence_passes :: "pyfloat list \<Rightarrow> bool" where
  "cadence_passes col =
     (dropna col = []
      \<or> real (length (filter (\<lambda>c. 60 \<le> c \<and> c \<le> 120) (dropna col))) / real (length (dropna col))
          \<ge> 8/10)"

section \<open>Verification\<close>

subsection \<open>Quality score\<close>

lemma criterion_names_eq:
  "criterion_names = [''duration'', ''steps_count'', ''monotonicity'', ''data_gaps'', ''cadence'', ''power_stability'']"
  by (simp add: criterion_names_def VALIDATION_CRITERIA_def)

lemma score_loop_sums:
  "score_loop cs (t, w) =
     (t + sum_list (map (weight_of \<circ> fst) cs), w + sum_list (map (weight_of \<circ> fst) (filter snd cs)))"
  by (induction cs arbitrary: t w) (auto simp: algebra_simps)

lemma weight_of_pos: "0 < weight_of k"
  by (simp add: weight_of_def VALIDATION_CRITERIA_def)

lemma sum_list_keys:
  assumes "distinct (map fst cs)"
  shows "sum_list (map (weight_of \<circ> fst) cs) = sum weight_of (fst ` set cs)"
proof -
  have "sum_list (map (weight_of \<circ> fst) cs) = sum_list (map weight_of (map fst cs))"
    by simp
  also have "\<dots> = sum weight_of (set (map fst cs))"
    using assms by (rule sum_list_distinct_conv_sum_set)
  finally show ?thesis by simp
qed

lemma passed_keys:
  assumes "distinct (map fst cs)"
  shows "fst ` set (filter snd cs) = {k. map_of cs k = Some True}"
  using assms by (induction cs) (auto simp: image_iff split: if_splits)

lemma weight_cfg: "k \<in> set criterion_names \<Longrightarrow> weight_of k = weight (cfg k)"
  by (auto simp: criterion_names_eq weight_of_def cfg_def VALIDATION_CRITERIA_def)

lemma total_weight_names: "sum weight_of (set criterion_names) = 1"
  by (simp add: criterion_names_eq weight_of_def VALIDATION_CRITERIA_def)

lemma py_round1_bounds:
  assumes "0 \<le> x" "x \<le> 100"
  shows "0 \<le> py_round1 x \<and> py_round1 x \<le> 100"
proof -
  define f where "f = \<lfloor>x * 10\<rfloor>"
  have f0: "0 \<le> f" using assms unfolding f_def by simp
  have f1: "f \<le> 1000" using assms unfolding f_def by (simp add: floor_le_iff)
  have fx: "of_int f \<le> x * 10" unfolding f_def by simp
  have up: "x * 10 - of_int f \<ge> 1/2 \<Longrightarrow> f + 1 \<le> 1000"
  proof -
    assume "x * 10 - of_int f \<ge> 1/2"
    then have "real_of_int f < 1000" using assms by linarith
    then show ?thesis by linarith
  qed
  show ?thesis
    using f0 f1 up unfolding py_round1_def Let_def f_def[symmetric]
    by (auto simp: field_simps)
qed

lemma distinct_names: "distinct criterion_names"
  by (simp add: criterion_names_eq)

lemma spec_total: "sum_list (map (\<lambda>k. weight (cfg k)) criterion_names) = 1"
  by (simp add: criterion_names_eq cfg_def VALIDATION_CRITERIA_def)

lemma quality_score_sums:
  assumes d: "distinct (map fst crit)" and k: "set (map fst crit) = set criterion_names"
  shows "calculate_quality_score crit =
           py_round1 (100 * sum weight_of {k \<in> set criterion_names. map_of crit k = Some True})"
proof -
  have m: "''duration'' \<in> set criterion_names" by (simp add: criterion_names_eq)
  have ne: "crit \<noteq> []"
  proof
    assume "crit = []"
    then have "set criterion_names = {}" using k by simp
    with m show False by simp
  qed
  have tot: "sum_list (map (weight_of \<circ> fst) crit) = 1"
    using sum_list_keys[OF d] k total_weight_names by simp
  have dp: "distinct (map fst (filter snd crit))" using d by (rule distinct_map_filter)
  have "x \<in> set criterion_names" if "map_of crit x = Some True" for x
  proof -
    have "(x, True) \<in> set crit" using that by (rule map_of_SomeD)
    then have "x \<in> fst ` set crit" by force
    then show ?thesis using k by simp
  qed
  then have "{k. map_of crit k = Some True} = {k \<in> set criterion_names. map_of crit k = Some True}"
    by auto
  then have pas: "sum_list (map (weight_of \<circ> fst) (filter snd crit))
                  = sum weight_of {k \<in> set criterion_names. map_of crit k = Some True}"
    using sum_list_keys[OF dp] passed_keys[OF d] by simp
  have "score_loop crit (0, 0) = (1, sum weight_of {k \<in> set criterion_names. map_of crit k = Some True})"
    unfolding score_loop_sums tot pas by simp
  then show ?thesis
    using ne by (simp add: calculate_quality_score_def mult.commute)
qed

lemma spec_quality_score_sums:
  "spec_quality_score crit =
     py_round1 (100 * sum weight_of {k \<in> set criterion_names. map_of crit k = Some True})"
proof -
  have "sum_list (map (\<lambda>k. weight (cfg k)) (filter (\<lambda>k. map_of crit k = Some True) criterion_names))
        = sum_list (map weight_of (filter (\<lambda>k. map_of crit k = Some True) criterion_names))"
    by (rule arg_cong[where f = sum_list]) (simp add: weight_cfg)
  also have "\<dots> = sum weight_of (set (filter (\<lambda>k. map_of crit k = Some True) criterion_names))"
    by (rule sum_list_distinct_conv_sum_set) (simp add: distinct_names)
  finally show ?thesis
    by (simp add: spec_quality_score_def spec_total) 
qed

lemma py_round1_tenth: "py_round1 (of_int n / 10) = of_int n / 10"
  by (simp add: py_round1_def)

lemma one_failing_score:
  assumes "k \<in> set criterion_names"
  shows "py_round1 (100 * (1 - weight_of k)) = 100 - weight (cfg k) * 100"
proof -
  have "k = ''duration'' \<or> k = ''steps_count'' \<or> k = ''monotonicity'' \<or> k = ''data_gaps''
        \<or> k = ''cadence'' \<or> k = ''power_stability''"
    using assms by (simp add: criterion_names_eq)
  then show ?thesis
    by (elim disjE) (simp_all add: weight_of_def cfg_def VALIDATION_CRITERIA_def py_round1_def)
qed

text \<open>
  Claim C1. For a criteria dictionary over the six fixed criterion names, the quality
  score is \<open>round(100 * passed_weight / total_weight, 1)\<close> with the weights of the
  configuration table; it is exactly 100 when all six criteria pass, it is 100 minus
  100 times the weight of the failing criterion when exactly one fails, and it lies
  between 0 and 100.
\<close>

theorem quality_score_weighted:
  assumes d: "distinct (map fst crit)" and k: "set (map fst crit) = set criterion_names"
  shows "calculate_quality_score crit = spec_quality_score crit
         \<and> (list_all snd crit \<longrightarrow> calculate_quality_score crit = 100)
         \<and> (\<forall>f. f \<in> set criterion_names \<and> map_of crit f = Some False
                 \<and> (\<forall>g. g \<in> set criterion_names \<and> g \<noteq> f \<longrightarrow> map_of crit g = Some True)
                \<longrightarrow> calculate_quality_score crit = 100 - weight (cfg f) * 100)
         \<and> 0 \<le> calculate_quality_score crit \<and> calculate_quality_score crit \<le> 100"
proof -
  let ?P = "{k \<in> set criterion_names. map_of crit k = Some True}"
  have q: "calculate_quality_score crit = py_round1 (100 * sum weight_of ?P)"
    by (rule quality_score_sums[OF d k])
  have c1: "calculate_quality_score crit = spec_quality_score crit"
    by (simp add: q spec_quality_score_sums)
  have c2: "calculate_quality_score crit = 100" if a: "list_all snd crit"
  proof -
    have "\<And>n. n \<in> set criterion_names \<Longrightarrow> map_of crit n = Some True"
    proof -
      fix n assume "n \<in> set criterion_names"
      then have "n \<in> fst ` set crit" using k by simp
      then obtain v where v: "(n, v) \<in> set crit" by auto
      then have "v" using a by (auto simp: list_all_iff)
      then show "map_of crit n = Some True" using v d by simp
    qed
    then have "?P = set criterion_names" by auto
    then show ?thesis using q total_weight_names py_round1_tenth[of 1000] by simp
  qed
  have c3: "calculate_quality_score crit = 100 - weight (cfg f) * 100"
    if f: "f \<in> set criterion_names" and ff: "map_of crit f = Some False"
      and oth: "\<forall>g. g \<in> set criterion_names \<and> g \<noteq> f \<longrightarrow> map_of crit g = Some True" for f
  proof -
    have "?P = set criterion_names - {f}" using ff oth by auto
    then have "sum weight_of ?P = sum weight_of (set criterion_names) - weight_of f"
      using f by (simp add: sum_diff1)
    then show ?thesis using q total_weight_names one_failing_score[OF f] by simp
  qed
  have sub: "sum weight_of ?P \<le> sum weight_of (set criterion_names)"
    by (rule sum_mono2) (auto simp: less_imp_le[OF weight_of_pos])
  have nn: "0 \<le> sum weight_of ?P"
    by (rule sum_nonneg) (simp add: less_imp_le[OF weight_of_pos])
  have c4: "0 \<le> calculate_quality_score crit \<and> calculate_quality_score crit \<le> 100"
    unfolding q using sub nn total_weight_names by (intro py_round1_bounds) auto
  show ?thesis using c1 c2 c3 c4 by blast
qed

theorem quality_score_weighted_witness:
  "calculate_quality_score
     [(''duration'', True), (''steps_count'', True), (''monotonicity'', True),
      (''power_stability'', True), (''data_gaps'', True), (''cadence'', False)] = 90"
proof -
  let ?c = "[(''duration'', True), (''steps_count'', True), (''monotonicity'', True),
             (''power_stability'', True), (''data_gaps'', True), (''cadence'', False)]"
  have d: "distinct (map fst ?c)" by simp
  have k: "set (map fst ?c) = set criterion_names"
    by (simp add: criterion_names_eq insert_commute)
  have "calculate_quality_score ?c = spec_quality_score ?c"
    using quality_score_weighted[OF d k] by blast
  also have "\<dots> = 90"
    by (simp add: spec_quality_score_def criterion_names_eq cfg_def VALIDATION_CRITERIA_def
                  py_round1_def)
  finally show ?thesis .
qed

subsection \<open>The structure of a validation call\<close>

lemma normalize_columns_Inr:
  assumes "normalize_columns df = Inr x"
  shows "x = table (resolve_columns df p t c) \<and> string_labels df"
  using assms by (auto simp: normalize_columns_def resolve_columns_def Let_def split: if_splits)

lemma validate_report:
  assumes "fst (validate_ramp_test df p t c) = Inr r"
  shows "\<exists>st2 st3 st4.
    power_check (table (resolve_columns df p t c)) (power_column (resolve_columns df p t c))
        (has_power (resolve_columns df p t c))
        (duration_check (n_rows (table (resolve_columns df p t c))) initial) = Inr st2
    \<and> time_check (table (resolve_columns df p t c)) (time_column (resolve_columns df p t c))
        (has_time (resolve_columns df p t c)) st2 = Inr st3
    \<and> cadence_check (table (resolve_columns df p t c)) (cadence_column (resolve_columns df p t c))
        (has_cadence (resolve_columns df p t c)) st3 = Inr st4
    \<and> criteria r = criteria st4 \<and> criteria_details r = criteria_details st4
    \<and> recommendations r = recommendations st4 \<and> warnings r = warnings st4
    \<and> quality_score r = calculate_quality_score (criteria r)
    \<and> status r = classify (quality_score r) (criteria r)"
proof -
  from assms obtain x where n: "normalize_columns df = Inr x"
    by (auto simp: validate_ramp_test_def split: sum.splits)
  have x: "x = table (resolve_columns df p t c)"
    using normalize_columns_Inr[OF n] by blast
  show ?thesis
    using assms unfolding validate_ramp_test_def n Let_def initial_def x
    by (auto split: sum.splits)
qed

lemma cfg_values:
  "cmin (cfg ''duration'') = 300" "cmax (cfg ''duration'') = 3600"
  "cmin (cfg ''steps_count'') = 3" "cmax (cfg ''steps_count'') = 20"
  "cmin (cfg ''monotonicity'') = 7/10"
  "cmax (cfg ''data_gaps'') = 5"
  "cmin (cfg ''cadence'') = 60" "cmax (cfg ''cadence'') = 120"
  "cmax (cfg ''power_stability'') = 15/100"
  by (simp_all add: cfg_def VALIDATION_CRITERIA_def)

lemma duration_check_keys: "map fst (criteria (duration_check n initial)) = [''duration'']"
  by (simp add: duration_check_def initial_def Let_def)

lemma power_check_keys:
  assumes "power_check df name present st = Inr st'" "map fst (criteria st) = [''duration'']"
  shows "map fst (criteria st') = [''duration'', ''steps_count'', ''monotonicity'', ''power_stability'']"
  using assms unfolding power_check_def Let_def
  by (auto split: sum.splits if_splits simp: AList.update_keys)

lemma time_check_keys:
  assumes "time_check df name present st = Inr st'"
    "map fst (criteria st) = [''duration'', ''steps_count'', ''monotonicity'', ''power_stability'']"
  shows "map fst (criteria st') = [''duration'', ''steps_count'', ''monotonicity'', ''power_stability'', ''data_gaps'']"
  using assms unfolding time_check_def Let_def
  by (auto split: sum.splits if_splits simp: AList.update_keys)

lemma cadence_check_keys:
  assumes "cadence_check df name present st = Inr st'"
    "map fst (criteria st) = [''duration'', ''steps_count'', ''monotonicity'', ''power_stability'', ''data_gaps'']"
  shows "map fst (criteria st') = [''duration'', ''steps_count'', ''monotonicity'', ''power_stability'', ''data_gaps'', ''cadence'']"
  using assms unfolding cadence_check_def Let_def
  by (auto split: sum.splits if_splits option.splits simp: AList.update_keys)

lemma validate_keys:
  assumes "fst (validate_ramp_test df p t c) = Inr r"
  shows "map fst (criteria r) = [''duration'', ''steps_count'', ''monotonicity'', ''power_stability'', ''data_gaps'', ''cadence'']"
proof -
  from validate_report[OF assms] obtain st2 st3 st4 where
    a: "power_check (table (resolve_columns df p t c)) (power_column (resolve_columns df p t c))
        (has_power (resolve_columns df p t c))
        (duration_check (n_rows (table (resolve_columns df p t c))) initial) = Inr st2"
    and b: "time_check (table (resolve_columns df p t c)) (time_column (resolve_columns df p t c))
        (has_time (resolve_columns df p t c)) st2 = Inr st3"
    and c: "cadence_check (table (resolve_columns df p t c)) (cadence_column (resolve_columns df p t c))
        (has_cadence (resolve_columns df p t c)) st3 = Inr st4"
    and r: "criteria r = criteria st4"
    by blast
  show ?thesis
    unfolding r
    by (rule cadence_check_keys[OF c time_check_keys[OF b power_check_keys[OF a duration_check_keys]]])
qed

lemmas string_case_simps = py_lower_def py_lower_char_def upper_chars_def lower_chars_def py_strip_def is_space_def

lemma resolve_time_only:
  "resolve_columns time_only_table ''watts'' ''time'' (Some ''cadence'') =
     \<lparr>table = time_only_table, power_column = ''watts'', time_column = ''time'',
      cadence_column = Some ''cadence'', has_power = False, has_time = True, has_cadence = False\<rparr>"
  by (simp add: resolve_columns_def lower_strip_labels_def has_column_def time_only_table_def
                string_case_simps Let_def)

lemma validate_time_only:
  "fst (validate_ramp_test time_only_table ''watts'' ''time'' (Some ''cadence'')) = Inr time_only_report"
  unfolding validate_ramp_test_def resolve_time_only Let_def
  by (simp add: normalize_columns_def lower_strip_labels_def string_case_simps
        time_only_table_def time_only_report_def duration_check_def power_check_def
        time_check_def cadence_check_def select_def detect_max_gap_def np_max_def f_sub_def
        py_int_def cfg_values calculate_quality_score_def weight_of_def VALIDATION_CRITERIA_def
        py_round1_def classify_def Let_def)

subsection \<open>Status classification\<close>

lemma six_keys_all:
  assumes "map fst crit = [''duration'', ''steps_count'', ''monotonicity'', ''power_stability'', ''data_gaps'', ''cadence'']"
  shows "list_all snd crit = list_all (\<lambda>k. map_of crit k = Some True) criterion_names"
proof -
  from assms obtain b1 b2 b3 b4 b5 b6 where
    "crit = [(''duration'', b1), (''steps_count'', b2), (''monotonicity'', b3),
             (''power_stability'', b4), (''data_gaps'', b5), (''cadence'', b6)]"
    by (auto simp: map_eq_Cons_conv)
  then show ?thesis by (auto simp: criterion_names_eq)
qed

text \<open>
  Claim C2. The status of a report is the first match of: \<open>valid\<close> when the quality
  score is at least 80 and each of the six criteria passed; \<open>conditional\<close> when the
  score is at least 50; \<open>invalid\<close> otherwise. No other status is produced.
\<close>

theorem status_first_match:
  assumes "fst (validate_ramp_test df p t c) = Inr r"
  shows "map fst (criteria r) = [''duration'', ''steps_count'', ''monotonicity'',
                                 ''power_stability'', ''data_gaps'', ''cadence'']
         \<and> quality_score r = calculate_quality_score (criteria r)
         \<and> status r =
             (if quality_score r \<ge> 80
                 \<and> list_all (\<lambda>k. map_of (criteria r) k = Some True) criterion_names
                then ''valid''
              else if quality_score r \<ge> 50 then ''conditional''
              else ''invalid'')
         \<and> (status r = ''valid'' \<or> status r = ''conditional'' \<or> status r = ''invalid'')"
proof -
  have keys: "map fst (criteria r) = [''duration'', ''steps_count'', ''monotonicity'',
                                      ''power_stability'', ''data_gaps'', ''cadence'']"
    using assms by (rule validate_keys)
  from validate_report[OF assms]
  have q: "quality_score r = calculate_quality_score (criteria r)"
    and s: "status r = classify (quality_score r) (criteria r)"
    by blast+
  have s': "status r =
             (if quality_score r \<ge> 80
                 \<and> list_all (\<lambda>k. map_of (criteria r) k = Some True) criterion_names
                then ''valid''
              else if quality_score r \<ge> 50 then ''conditional''
              else ''invalid'')"
    unfolding s classify_def six_keys_all[OF keys] ..
  have "status r = ''valid'' \<or> status r = ''conditional'' \<or> status r = ''invalid''"
    unfolding s classify_def by simp
  with keys q s' show ?thesis by blast
qed

theorem status_first_match_witness:
  "map fst (criteria time_only_report) = [''duration'', ''steps_count'', ''monotonicity'',
                                 ''power_stability'', ''data_gaps'', ''cadence'']
         \<and> quality_score time_only_report = calculate_quality_score (criteria time_only_report)
         \<and> status time_only_report =
             (if quality_score time_only_report \<ge> 80
                 \<and> list_all (\<lambda>k. map_of (criteria time_only_report) k = Some True) criterion_names
                then ''valid''
              else if quality_score time_only_report \<ge> 50 then ''conditional''
              else ''invalid'')
         \<and> (status time_only_report = ''valid'' \<or> status time_only_report = ''conditional''
              \<or> status time_only_report = ''invalid'')"
  by (rule status_first_match[OF validate_time_only])

subsection \<open>Gap detector\<close>

lemma those_map_Some: "those (map Some xs) = Some xs"
  by (induction xs) simp_all

lemma np_diff_Some:
  "np_diff (map Some ts) = map Some (map (\<lambda>(a, b). b - a) (zip ts (tl ts)))"
proof (induction ts)
  case Nil
  then show ?case by simp
next
  case (Cons a ts)
  then show ?case by (cases ts) (simp_all add: f_sub_def)
qed

lemma py_int_max0: "max 0 (py_int x) = py_int (max 0 x)"
proof (cases "0 \<le> x")
  case True
  then have "0 \<le> \<lfloor>x\<rfloor>" by simp
  with True show ?thesis by (simp add: py_int_def max_def)
next
  case False
  then have "\<lceil>x\<rceil> \<le> 0" by (simp add: ceiling_le_zero)
  then have a: "max 0 \<lceil>x\<rceil> = 0" by simp
  have b: "py_int x = \<lceil>x\<rceil>" using False by (simp add: py_int_def)
  have c: "py_int (max 0 x) = 0" using False by (simp add: py_int_def max_def)
  show ?thesis by (simp only: a b c)
qed

lemma gaps_Some:
  "map (\<lambda>d. f_sub d (Some 1)) (np_diff (map Some ts))
     = map Some (map (\<lambda>(a, b). b - a - 1) (zip ts (tl ts)))"
  by (simp add: np_diff_Some f_sub_def split_def comp_def)

lemma detect_max_gap_spec:
  "detect_max_gap (map Some ts) = Inr (py_int (spec_max_gap ts))"
proof (cases "length ts < 2")
  case True
  then show ?thesis by (simp add: detect_max_gap_def spec_max_gap_def py_int_def)
next
  case False
  let ?g = "map (\<lambda>(a, b). b - a - 1) (zip ts (tl ts))"
  from False obtain a b rest where ts: "ts = a # b # rest"
    by (cases ts; cases "tl ts") auto
  then obtain g gs where g: "?g = g # gs" by auto
  have nm: "np_max (map Some ?g) = Some (Max (set ?g))"
    by (simp only: np_max_def those_map_Some g option.case list.case Max.set_eq_fold)
  have gs: "map (\<lambda>d. f_sub d (Some 1)) (np_diff (map Some ts)) = map Some ?g"
    by (rule gaps_Some)
  have len: "length (map Some ?g) > 0" using g by simp
  have "detect_max_gap (map Some ts) = Inr (max 0 (py_int (Max (set ?g))))"
    unfolding detect_max_gap_def Let_def gs nm using False len by simp
  then show ?thesis
    using False by (simp only: spec_max_gap_def py_int_max0 if_False)
qed

text \<open>A missing timestamp makes \<^verbatim>\<open>int(np.max(gaps))\<close> raise.\<close>

lemma max_gap_nan_raises: "detect_max_gap [Some 0, None, Some 2] = Inl ValueError"
  by (simp add: detect_max_gap_def np_max_def f_sub_def)

lemma py_int_of_int: "py_int (of_int z) = z"
  by (simp add: py_int_def)

lemma spec_max_gap_int: "spec_max_gap (map of_int zs) \<in> \<int>"
proof (cases "length zs < 2")
  case True
  then show ?thesis by (simp add: spec_max_gap_def)
next
  case False
  let ?ts = "map real_of_int zs"
  let ?G = "set (map (\<lambda>(a, b). b - a - 1) (zip ?ts (tl ?ts)))"
  from False obtain a b rest where "zs = a # b # rest"
    by (cases zs; cases "tl zs") auto
  then have ne: "?G \<noteq> {}" by simp
  have "Max ?G \<in> ?G" using ne by (intro Max_in) simp
  moreover have "\<And>x. x \<in> ?G \<Longrightarrow> x \<in> \<int>"
  proof -
    fix x assume "x \<in> ?G"
    then obtain u v where uv: "(u, v) \<in> set (zip ?ts (tl ?ts))" and x: "x = v - u - 1"
      by auto
    from uv have "u \<in> set ?ts" by (rule set_zip_leftD)
    moreover from uv have "v \<in> set (tl ?ts)" by (rule set_zip_rightD)
    then have "v \<in> set ?ts" by (rule list.set_sel(2)[rotated]) (use False in auto)
    ultimately have "u \<in> \<int>" "v \<in> \<int>" by auto
    then show "x \<in> \<int>" unfolding x by (intro Ints_diff) simp_all
  qed
  ultimately have "Max ?G \<in> \<int>" by blast
  then have "max 0 (Max ?G) \<in> \<int>" by (simp add: max_def)
  then show ?thesis using False by (simp add: spec_max_gap_def)
qed

lemma time_check_criteria:
  assumes "time_check df name present st = Inr st'"
  shows "if present
         then (\<exists>time g. select df name = Inr time \<and> detect_max_gap time = Inr g
                 \<and> criteria st' = AList.update ''data_gaps'' (g \<le> 5) (criteria st))
         else criteria st' = AList.update ''data_gaps'' True (criteria st)"
  using assms unfolding time_check_def Let_def
  by (auto split: sum.splits simp: cfg_values)

lemma cadence_check_frame:
  assumes "cadence_check df name present st = Inr st'" "k \<noteq> ''cadence''"
  shows "map_of (criteria st') k = map_of (criteria st) k"
  using assms unfolding cadence_check_def Let_def
  by (auto split: sum.splits option.splits if_splits simp: update_conv')

text \<open>
  Claim C6, as amended. On a time array without missing values the gap detector returns
  the largest value of (consecutive difference minus 1), floored at 0 and truncated
  towards zero to an integer; fewer than two samples give 0; for whole-number
  timestamps nothing is lost by the truncation. The \<open>data_gaps\<close> criterion passes
  exactly when the returned gap is at most 5, and it passes when there is no time column.
\<close>

theorem max_gap_truncated:
  assumes "fst (validate_ramp_test df p t c) = Inr r"
  shows "detect_max_gap (map Some ts) = Inr (py_int (spec_max_gap ts))
         \<and> of_int (py_int (spec_max_gap (map of_int zs))) = spec_max_gap (map of_int zs)
         \<and> (if has_time (resolve_columns df p t c)
             then (\<exists>time g. select (table (resolve_columns df p t c))
                                    (time_column (resolve_columns df p t c)) = Inr time
                     \<and> detect_max_gap time = Inr g
                     \<and> map_of (criteria r) ''data_gaps'' = Some (g \<le> 5))
             else map_of (criteria r) ''data_gaps'' = Some True)"
proof -
  from validate_report[OF assms] obtain st2 st3 st4 where
    b: "time_check (table (resolve_columns df p t c)) (time_column (resolve_columns df p t c))
        (has_time (resolve_columns df p t c)) st2 = Inr st3"
    and c: "cadence_check (table (resolve_columns df p t c)) (cadence_column (resolve_columns df p t c))
        (has_cadence (resolve_columns df p t c)) st3 = Inr st4"
    and r: "criteria r = criteria st4"
    by blast
  have fr: "map_of (criteria r) ''data_gaps'' = map_of (criteria st3) ''data_gaps''"
    unfolding r by (rule cadence_check_frame[OF c]) simp
  have 3: "if has_time (resolve_columns df p t c)
             then (\<exists>time g. select (table (resolve_columns df p t c))
                                    (time_column (resolve_columns df p t c)) = Inr time
                     \<and> detect_max_gap time = Inr g
                     \<and> map_of (criteria r) ''data_gaps'' = Some (g \<le> 5))
             else map_of (criteria r) ''data_gaps'' = Some True"
    using time_check_criteria[OF b] unfolding fr
    by (auto simp: update_conv' split: if_splits)
  obtain z :: int where z: "spec_max_gap (map of_int zs) = of_int z"
    using spec_max_gap_int[of zs] by (auto elim: Ints_cases)
  have 2: "of_int (py_int (spec_max_gap (map of_int zs))) = spec_max_gap (map of_int zs)"
    unfolding z by (simp add: py_int_of_int)
  show ?thesis using detect_max_gap_spec 2 3 by blast
qed

theorem max_gap_truncated_witness:
  "detect_max_gap (map Some [0, 1, 8]) = Inr 6
   \<and> spec_max_gap (map of_int [0, 1, 8]) = 6
   \<and> map_of (criteria time_only_report) ''data_gaps'' = Some True"
proof -
  have "spec_max_gap [0, 1, 8] = 6" by (simp add: spec_max_gap_def)
  moreover have "map_of (criteria time_only_report) ''data_gaps'' = Some True"
    by (simp add: time_only_report_def)
  ultimately show ?thesis
    using max_gap_truncated[OF validate_time_only, of "[0, 1, 8]" "[0, 1, 8]"]
    by (simp add: py_int_of_int[of 6, simplified])
qed

theorem max_gap_not_truncated_counterexample:
  "detect_max_gap [Some 0, Some (5/2)] = Inr 1 \<and> spec_max_gap [0, 5/2] = 3/2"
  by (simp add: detect_max_gap_def np_max_def f_sub_def py_int_def spec_max_gap_def)

subsection \<open>Step segmenter\<close>

lemma length_rolling_mean: "length (rolling_mean w xs) = length xs"
  by (simp add: rolling_mean_def)

lemma length_bfill: "length (bfill xs) = length xs"
  by (induction xs) (simp_all add: Let_def)

lemma length_ffill_from: "length (ffill_from p xs) = length xs"
  by (induction xs arbitrary: p) (simp_all split: option.splits)

lemma length_smooth: "length (smooth w xs) = length xs"
  by (simp add: smooth_def ffill_def length_ffill_from length_bfill length_rolling_mean)

lemma np_gradient_cases:
  "np_gradient s = (if length s < 2 then Inl ValueError else np_gradient s)
   \<and> (2 \<le> length s \<longrightarrow> (\<exists>g. np_gradient s = Inr g \<and> length g = length s))"
  by (simp add: np_gradient_def Let_def)

lemma spaced_last:
  assumes "sorted_wrt (spaced msd) bs" "a \<in> set bs"
  shows "a \<le> last bs"
  using assms
proof (induction bs)
  case Nil
  then show ?case by simp
next
  case (Cons b bs)
  show ?case
  proof (cases "bs = []")
    case True
    with Cons.prems show ?thesis by simp
  next
    case False
    then have l: "last bs \<in> set bs" by simp
    show ?thesis
    proof (cases "a = b")
      case True
      with Cons.prems(1) l have "spaced msd a (last bs)" by auto
      then show ?thesis using False by (simp add: spaced_def)
    next
      case False
      with Cons.prems have "a \<in> set bs" "sorted_wrt (spaced msd) bs" by auto
      then have "a \<le> last bs" using Cons.IH by blast
      then show ?thesis using \<open>bs \<noteq> []\<close> by simp
    qed
  qed
qed

lemma boundaries_append:
  assumes "boundaries_ok msd i bs" "int i - int (last bs) \<ge> int msd"
  shows "boundaries_ok msd (Suc i) (bs @ [i])"
proof -
  from assms(1) have ne: "bs \<noteq> []" and h: "hd bs = 0" and s: "sorted_wrt (spaced msd) bs"
    and lt: "\<forall>a\<in>set bs. a < i"
    by (auto simp: boundaries_ok_def list_all_iff)
  have "\<forall>a\<in>set bs. spaced msd a i"
  proof
    fix a assume a: "a \<in> set bs"
    then have "a \<le> last bs" using s by (rule spaced_last[rotated])
    moreover have "last bs + msd \<le> i" using assms(2) by linarith
    ultimately show "spaced msd a i" using lt a by (simp add: spaced_def)
  qed
  then have "sorted_wrt (spaced msd) (bs @ [i])" using s by (simp add: sorted_wrt_append)
  moreover have "list_all (\<lambda>a. a < Suc i) (bs @ [i])"
    using lt by (auto simp: list_all_iff)
  ultimately show ?thesis using ne h by (simp add: boundaries_ok_def)
qed

lemma boundaries_mono: "boundaries_ok msd i bs \<Longrightarrow> boundaries_ok msd (Suc i) bs"
  by (auto simp: boundaries_ok_def list_all_iff)

lemma scan_transitions_ok:
  assumes "boundaries_ok msd i bs"
  shows "boundaries_ok msd (i + length gs) (scan_transitions msd gs i tr bs)"
  using assms
proof (induction gs arbitrary: i tr bs)
  case Nil
  then show ?case by simp
next
  case (Cons g gs)
  have "\<exists>tr' bs'. scan_transitions msd (g # gs) i tr bs = scan_transitions msd gs (Suc i) tr' bs'
                  \<and> boundaries_ok msd (Suc i) bs'"
  proof (cases "int i - int (last bs) \<ge> int msd")
    case True
    have "boundaries_ok msd (Suc i) (bs @ [i])" "boundaries_ok msd (Suc i) bs"
      using Cons.prems True by (auto intro: boundaries_append boundaries_mono)
    then show ?thesis using True by auto
  next
    case False
    have "boundaries_ok msd (Suc i) bs"
      using Cons.prems by (rule boundaries_mono)
    then show ?thesis using False by auto
  qed
  then obtain tr' bs' where
    e: "scan_transitions msd (g # gs) i tr bs = scan_transitions msd gs (Suc i) tr' bs'"
    and ok: "boundaries_ok msd (Suc i) bs'" by blast
  show ?case unfolding e using Cons.IH[OF ok, of tr'] by simp
qed

lemma build_steps_props:
  assumes "sorted_wrt (spaced msd) (a # bs)" "list_all (\<lambda>x. x < length pw) (a # bs)"
  shows "list_all (step_ok msd) (build_steps pw msd (a # bs))
         \<and> list_all (\<lambda>s. a \<le> step_start s) (build_steps pw msd (a # bs))
         \<and> sorted_wrt (<) (map step_start (build_steps pw msd (a # bs)))
         \<and> (\<exists>e. chain_end a (build_steps pw msd (a # bs)) = Some e
                \<and> (e = length pw \<or> length pw - e < msd))"
  using assms
proof (induction bs arbitrary: a)
  case Nil
  then have "a < length pw" by simp
  then show ?case by (auto simp: step_ok_def Let_def)
next
  case (Cons b bs)
  let ?rest = "build_steps pw msd (b # bs)"
  let ?s = "\<lparr>step_start = a, step_end = b, step_duration = int b - int a,
             step_avg_power = np_mean (slice pw a b)\<rparr>"
  from Cons.prems have sp: "spaced msd a b" by simp
  then have ab: "a < b" "int msd \<le> int b - int a" by (auto simp: spaced_def)
  have eq: "build_steps pw msd (a # b # bs) = ?s # ?rest"
    using ab by (simp add: Let_def)
  from Cons.prems have "sorted_wrt (spaced msd) (b # bs)" "list_all (\<lambda>x. x < length pw) (b # bs)"
    by auto
  from Cons.IH[OF this] have
    ih1: "list_all (step_ok msd) ?rest" and
    ih2: "list_all (\<lambda>s. b \<le> step_start s) ?rest" and
    ih3: "sorted_wrt (<) (map step_start ?rest)" and
    ih4: "\<exists>e. chain_end b ?rest = Some e \<and> (e = length pw \<or> length pw - e < msd)"
    by blast+
  have 1: "list_all (step_ok msd) (?s # ?rest)"
    using ih1 ab by (simp add: step_ok_def)
  have 2: "list_all (\<lambda>s. a \<le> step_start s) (?s # ?rest)"
    using ih2 ab by (auto simp: list_all_iff)
  have 3: "sorted_wrt (<) (map step_start (?s # ?rest))"
    using ih2 ih3 ab by (auto simp: list_all_iff)
  have 4: "\<exists>e. chain_end a (?s # ?rest) = Some e \<and> (e = length pw \<or> length pw - e < msd)"
    using ih4 by simp
  show ?case unfolding eq using 1 2 3 4 by blast
qed

lemma detect_power_steps_short:
  "length pw < msd \<Longrightarrow> detect_power_steps pw msd = Inr []"
  by (simp add: detect_power_steps_def)

lemma detect_power_steps_raises:
  "msd \<le> length pw \<Longrightarrow> length pw < 2 \<Longrightarrow> detect_power_steps pw msd = Inl ValueError"
  by (simp add: detect_power_steps_def Let_def np_gradient_def length_smooth)

lemma detect_power_steps_long:
  assumes "msd \<le> length pw" "2 \<le> length pw"
  shows "\<exists>bs. detect_power_steps pw msd = Inr (build_steps pw msd bs)
              \<and> boundaries_ok msd (length pw) bs"
proof -
  define w where "w = (if min 30 (length pw div 10) < 5 then 5 else min 30 (length pw div 10))"
  have "2 \<le> length (smooth w pw)" using assms(2) by (simp add: length_smooth)
  then obtain g where g: "np_gradient (smooth w pw) = Inr g" and lg: "length g = length pw"
    using np_gradient_cases[of "smooth w pw"] by (auto simp: length_smooth)
  let ?bs = "scan_transitions msd (drop 1 g) 1 False [0]"
  have "boundaries_ok msd 1 [0]" by (simp add: boundaries_ok_def)
  then have "boundaries_ok msd (1 + length (drop 1 g)) ?bs" by (rule scan_transitions_ok)
  moreover have "1 + length (drop 1 g) = length pw" using lg assms(2) by simp
  ultimately have ok: "boundaries_ok msd (length pw) ?bs" by (simp only:)
  have "detect_power_steps pw msd = Inr (build_steps pw msd ?bs)"
    using assms(1) g unfolding detect_power_steps_def Let_def w_def by simp
  with ok show ?thesis by blast
qed

lemma detect_power_steps_props:
  assumes "detect_power_steps pw msd = Inr steps"
  shows "list_all (step_ok msd) steps \<and> sorted_wrt (<) (map step_start steps)
         \<and> (msd \<le> length pw \<longrightarrow>
              (\<exists>e. chain_end 0 steps = Some e \<and> (e = length pw \<or> length pw - e < msd)))"
proof (cases "length pw < msd")
  case True
  then have "steps = []" using assms by (simp add: detect_power_steps_short)
  with True show ?thesis by simp
next
  case False
  then have m: "msd \<le> length pw" by simp
  have "2 \<le> length pw"
  proof (rule ccontr)
    assume "\<not> 2 \<le> length pw"
    then have "detect_power_steps pw msd = Inl ValueError"
      using m by (simp add: detect_power_steps_raises)
    with assms show False by simp
  qed
  from detect_power_steps_long[OF m this] obtain bs where
    d: "detect_power_steps pw msd = Inr (build_steps pw msd bs)"
    and ok: "boundaries_ok msd (length pw) bs" by blast
  from ok obtain rest where bs: "bs = 0 # rest"
    by (cases bs) (auto simp: boundaries_ok_def)
  have "sorted_wrt (spaced msd) (0 # rest)" "list_all (\<lambda>x. x < length pw) (0 # rest)"
    using ok unfolding bs boundaries_ok_def by auto
  from build_steps_props[OF this] show ?thesis
    using assms d unfolding bs by auto
qed

lemma detect_two_level: "detect_power_steps two_level_power 3 = Inr two_level_steps"
  by code_simp

lemma detect_three_level: "detect_power_steps three_level_power 5 = Inr three_level_steps"
  by code_simp

lemma detect_power_steps_default_returns: "\<exists>steps. detect_power_steps pw 30 = Inr steps"
proof (cases "length pw < 30")
  case True
  then show ?thesis by (simp add: detect_power_steps_short)
next
  case False
  then have "30 \<le> length pw" "2 \<le> length pw" by simp_all
  from detect_power_steps_long[OF this] show ?thesis by blast
qed

text \<open>
  Claim C7. A power array shorter than \<open>min_step_duration\<close> gives the empty step list,
  not an error. Every step of a returned list has \<open>start < end\<close>,
  \<open>duration = end - start\<close> and \<open>duration \<ge> min_step_duration\<close>, and the list is in
  increasing order of the start index. With the default of 30 samples the segmenter
  returns a list for every array.
\<close>

theorem detect_power_steps_wellformed:
  assumes "length short < msd" and "detect_power_steps pw msd = Inr steps"
  shows "detect_power_steps short msd = Inr []
         \<and> list_all (step_ok msd) steps
         \<and> sorted_wrt (<) (map step_start steps)
         \<and> (\<exists>ss. detect_power_steps any 30 = Inr ss)"
  using detect_power_steps_short[OF assms(1)] detect_power_steps_props[OF assms(2)]
        detect_power_steps_default_returns[of any]
  by blast

theorem detect_power_steps_wellformed_witness:
  "detect_power_steps [Some 1, Some 1] 3 = Inr []
   \<and> list_all (step_ok 3) two_level_steps
   \<and> sorted_wrt (<) (map step_start two_level_steps)"
proof -
  have "length [Some (1::real), Some 1] < 3" by simp
  from detect_power_steps_wellformed[OF this detect_two_level] show ?thesis by blast
qed

text \<open>
  Claim C10. For a power array of length at least \<open>min_step_duration\<close>, the returned
  steps are contiguous: the first one starts at index 0, each step ends where the next
  one starts, and what is left after the last step is the whole rest of the array and is
  shorter than \<open>min_step_duration\<close> (or empty).
\<close>

theorem detect_power_steps_contiguous:
  assumes "msd \<le> length pw" and "detect_power_steps pw msd = Inr steps"
  shows "(case steps of [] \<Rightarrow> True | s # _ \<Rightarrow> step_start s = 0)
         \<and> (\<exists>e. chain_end 0 steps = Some e \<and> (e = length pw \<or> length pw - e < msd))"
proof -
  from detect_power_steps_props[OF assms(2)] assms(1) obtain e where
    e: "chain_end 0 steps = Some e" "e = length pw \<or> length pw - e < msd" by blast
  have "case steps of [] \<Rightarrow> True | s # _ \<Rightarrow> step_start s = 0"
    using e(1) by (cases steps) (auto split: if_splits)
  with e show ?thesis by blast
qed

theorem detect_power_steps_contiguous_witness:
  "(case three_level_steps of [] \<Rightarrow> True | s # _ \<Rightarrow> step_start s = 0)
   \<and> chain_end 0 three_level_steps = Some 25
   \<and> length three_level_power = 27"
proof -
  have "5 \<le> length three_level_power" by (simp add: three_level_power_def)
  from detect_power_steps_contiguous[OF this detect_three_level]
  show ?thesis by (simp add: three_level_steps_def three_level_power_def)
qed

subsection \<open>Monotonicity scorer and the power criteria\<close>

lemma count_transitions_filter:
  "count_transitions sm (inc, tot) =
     (inc + length (filter (\<lambda>d. f_gt d 0) (significant sm)), tot + length (significant sm))"
  by (induction sm "(inc, tot)" arbitrary: inc tot rule: count_transitions.induct)
     (simp_all add: significant_def Let_def)

lemma calculate_monotonicity_spec:
  "window \<le> length pw \<Longrightarrow>
     calculate_monotonicity pw window = spec_monotonicity (smooth window pw)"
  by (simp add: calculate_monotonicity_def count_transitions_filter spec_monotonicity_def)

lemma calculate_monotonicity_short:
  "length pw < window \<Longrightarrow> calculate_monotonicity pw window = 0"
  by (simp add: calculate_monotonicity_def)

lemma those_replicate: "those (replicate m (Some c)) = Some (replicate m c)"
  by (induction m) simp_all

lemma np_mean_replicate: "0 < m \<Longrightarrow> np_mean (replicate m (Some c)) = Some c"
  by (simp add: np_mean_def those_replicate sum_list_replicate)

lemma rolling_mean_nth:
  "i < length xs \<Longrightarrow>
     rolling_mean w xs ! i =
       (if w \<le> i + 1 + (w - 1) div 2 \<and> i + 1 + (w - 1) div 2 \<le> length xs
        then np_mean (take w (drop (i + 1 + (w - 1) div 2 - w) xs)) else None)"
  by (simp add: rolling_mean_def Let_def)

lemma window_flat:
  "k + w \<le> n \<Longrightarrow> take w (drop k (replicate n (Some c))) = replicate w (Some c)"
  by (simp add: min_def)

lemma rolling_mean_flat_elems:
  assumes "0 < w" "y \<in> set (rolling_mean w (replicate n (Some c)))"
  shows "y = None \<or> y = Some c"
proof -
  from assms(2) obtain i where i: "i < n" and y: "y = rolling_mean w (replicate n (Some c)) ! i"
    by (auto simp: in_set_conv_nth length_rolling_mean)
  define e where "e = i + 1 + (w - 1) div 2"
  have nth: "y = (if w \<le> e \<and> e \<le> n
                  then np_mean (take w (drop (e - w) (replicate n (Some c)))) else None)"
    unfolding y e_def using i by (simp only: rolling_mean_nth length_replicate)
  show ?thesis
  proof (cases "w \<le> e \<and> e \<le> n")
    case True
    then have "e - w + w \<le> n" by simp
    then have "take w (drop (e - w) (replicate n (Some c))) = replicate w (Some c)"
      by (rule window_flat)
    then have "y = np_mean (replicate w (Some c))" using nth True by simp
    then show ?thesis using assms(1) by (simp add: np_mean_replicate)
  next
    case False
    then have "y = None" unfolding nth by (rule if_not_P)
    then show ?thesis by simp
  qed
qed

lemma rolling_mean_flat_defined:
  assumes "0 < w" "w \<le> n"
  shows "Some c \<in> set (rolling_mean w (replicate n (Some c)))"
proof -
  let ?i = "w - 1 - (w - 1) div 2"
  have e: "?i + 1 + (w - 1) div 2 = w" using assms(1) by simp
  have i: "?i < n" using assms by simp
  have "take w (drop (w - w) (replicate n (Some c))) = replicate w (Some c)"
    using assms(2) by (simp add: window_flat)
  then have "rolling_mean w (replicate n (Some c)) ! ?i = Some c"
    using i assms by (simp only: rolling_mean_nth length_replicate e) (simp add: np_mean_replicate)
  moreover have "?i < length (rolling_mean w (replicate n (Some c)))"
    using i by (simp add: length_rolling_mean)
  ultimately show ?thesis by (metis nth_mem)
qed

lemma bfill_elems: "y \<in> set (bfill xs) \<Longrightarrow> y = None \<or> y \<in> set xs"
proof (induction xs arbitrary: y)
  case Nil
  then show ?case by simp
next
  case (Cons x xs)
  then show ?case
    by (cases "bfill xs") (auto simp: Let_def split: option.splits)
qed

lemma bfill_head:
  "Some v \<in> set xs \<Longrightarrow> \<exists>u rest. bfill xs = Some u # rest"
proof (induction xs)
  case Nil
  then show ?case by simp
next
  case (Cons x xs)
  then show ?case by (cases x) (auto simp: Let_def)
qed

lemma ffill_from_Some_elems:
  "y \<in> set (ffill_from (Some p) xs) \<Longrightarrow> y = Some p \<or> (y \<noteq> None \<and> y \<in> set xs)"
proof (induction xs arbitrary: p y)
  case Nil
  then show ?case by simp
next
  case (Cons x xs)
  then show ?case by (cases x) (fastforce split: option.splits)+
qed

lemma smooth_flat:
  assumes "0 < w" "w \<le> n"
  shows "smooth w (replicate n (Some c)) = replicate n (Some c)"
proof -
  let ?r = "rolling_mean w (replicate n (Some c))"
  from bfill_head[OF rolling_mean_flat_defined[OF assms]] obtain u rest
    where b: "bfill ?r = Some u # rest" by blast
  have el: "\<And>y. y \<in> set (bfill ?r) \<Longrightarrow> y = None \<or> y = Some c"
    using bfill_elems rolling_mean_flat_elems[OF assms(1)] by blast
  then have u: "u = c" using b by auto
  have "\<And>y. y \<in> set (smooth w (replicate n (Some c))) \<Longrightarrow> y = Some c"
  proof -
    fix y assume "y \<in> set (smooth w (replicate n (Some c)))"
    then have "y = Some c \<or> y \<in> set (ffill_from (Some c) rest)"
      by (simp add: smooth_def ffill_def b u)
    then have "y = Some c \<or> (y \<noteq> None \<and> y \<in> set rest)"
      using ffill_from_Some_elems by blast
    then show "y = Some c" using el b by auto
  qed
  moreover have "length (smooth w (replicate n (Some c))) = n"
    by (simp add: length_smooth)
  ultimately show ?thesis by (metis replicate_eqI)
qed

lemma np_diff_flat: "d \<in> set (np_diff (replicate n (Some c))) \<Longrightarrow> d = Some 0"
proof (induction n)
  case 0
  then show ?case by simp
next
  case (Suc n)
  then show ?case by (cases n) (auto simp: f_sub_def)
qed

lemma calculate_monotonicity_flat:
  assumes "0 < w" "w \<le> n"
  shows "calculate_monotonicity (replicate n (Some c)) w = 1"
proof -
  have "significant (replicate n (Some c)) = []"
    unfolding significant_def filter_empty_conv
    by (auto dest!: np_diff_flat simp: f_gt_def f_abs_def)
  then show ?thesis
    using assms by (simp add: calculate_monotonicity_spec smooth_flat spec_monotonicity_def)
qed

lemma resolve_short_power:
  "resolve_columns short_power_table ''watts'' ''time'' (Some ''cadence'') =
     \<lparr>table = \<lparr>columns = [(''watts'', [Some 100, Some 110]), (''time'', [Some 0, Some 1])],
                n_rows = 2, string_labels = True\<rparr>,
      power_column = ''watts'', time_column = ''time'',
      cadence_column = Some ''cadence'', has_power = True, has_time = True, has_cadence = False\<rparr>"
  by (simp add: resolve_columns_def lower_strip_labels_def has_column_def short_power_table_def
                string_case_simps Let_def)

lemma validate_short_power:
  "fst (validate_ramp_test short_power_table ''watts'' ''time'' (Some ''cadence'')) = Inr short_power_report"
  unfolding validate_ramp_test_def resolve_short_power Let_def
  by (simp add: normalize_columns_def lower_strip_labels_def string_case_simps
        short_power_table_def short_power_report_def duration_check_def power_check_def
        time_check_def cadence_check_def select_def detect_max_gap_def np_max_def f_sub_def
        detect_power_steps_def calculate_monotonicity_def calculate_power_stability_def
        f_le_def f_gt_def
        py_int_def cfg_values calculate_quality_score_def weight_of_def VALIDATION_CRITERIA_def
        py_round1_def classify_def Let_def)

lemma power_check_present:
  assumes "power_check df name True st = Inr st'"
  shows "\<exists>pw steps. select df name = Inr pw \<and> detect_power_steps pw 30 = Inr steps
     \<and> criteria st' =
         AList.update ''power_stability'' (f_le (calculate_power_stability pw steps) (15/100))
           (AList.update ''monotonicity'' (calculate_monotonicity pw 30 \<ge> 7/10)
             (AList.update ''steps_count'' (3 \<le> length steps \<and> length steps \<le> 20) (criteria st)))
     \<and> recommendations st' =
         recommendations st
           @ (if length steps < 3 then [Too_few_steps (int (length steps))] else [])
           @ (if calculate_monotonicity pw 30 < 7/10
                then [Low_monotonicity (calculate_monotonicity pw 30 * 100)] else [])
     \<and> warnings st' =
         warnings st
           @ (if f_gt (calculate_power_stability pw steps) (15/100)
                then [High_power_variability
                        (map_option (\<lambda>x. x * 100) (calculate_power_stability pw steps))]
                else [])"
proof -
  from assms obtain pw where pw: "select df name = Inr pw"
    by (auto simp: power_check_def split: sum.splits)
  with assms obtain steps where steps: "detect_power_steps pw 30 = Inr steps"
    by (auto simp: power_check_def split: sum.splits)
  have "select df name = Inr pw \<and> detect_power_steps pw 30 = Inr steps
     \<and> criteria st' =
         AList.update ''power_stability'' (f_le (calculate_power_stability pw steps) (15/100))
           (AList.update ''monotonicity'' (calculate_monotonicity pw 30 \<ge> 7/10)
             (AList.update ''steps_count'' (3 \<le> length steps \<and> length steps \<le> 20) (criteria st)))
     \<and> recommendations st' =
         recommendations st
           @ (if length steps < 3 then [Too_few_steps (int (length steps))] else [])
           @ (if calculate_monotonicity pw 30 < 7/10
                then [Low_monotonicity (calculate_monotonicity pw 30 * 100)] else [])
     \<and> warnings st' =
         warnings st
           @ (if f_gt (calculate_power_stability pw steps) (15/100)
                then [High_power_variability
                        (map_option (\<lambda>x. x * 100) (calculate_power_stability pw steps))]
                else [])"
    using assms pw steps by (auto simp: power_check_def Let_def cfg_values)
  then show ?thesis by blast
qed

lemma power_check_absent:
  assumes "power_check df name False st = Inr st'"
  shows "criteria st' =
           AList.update ''power_stability'' False
             (AList.update ''monotonicity'' False
               (AList.update ''steps_count'' False (criteria st)))
         \<and> criteria_details st' =
             AList.update ''steps_count'' [(''value'', IntV 0), (''error'', TextV No_power_column)]
               (criteria_details st)
         \<and> recommendations st' = recommendations st @ [No_power_data]
         \<and> warnings st' = warnings st"
  using assms unfolding power_check_def by auto

lemma time_check_frame:
  assumes "time_check df name present st = Inr st'"
  shows "recommendations st' = recommendations st
         \<and> (\<exists>ws. warnings st' = warnings st @ ws \<and> list_all (\<lambda>w. \<exists>g. w = Data_gap g) ws)
         \<and> (k \<noteq> ''data_gaps'' \<longrightarrow> map_of (criteria st') k = map_of (criteria st) k
                \<and> map_of (criteria_details st') k = map_of (criteria_details st) k)"
  using assms unfolding time_check_def Let_def
  by (auto split: sum.splits if_splits simp: update_conv')

lemma cadence_check_frame_all:
  assumes "cadence_check df name present st = Inr st'"
  shows "recommendations st' = recommendations st
         \<and> (\<exists>ws. warnings st' = warnings st @ ws \<and> list_all (\<lambda>w. w = Cadence_out_of_range) ws)
         \<and> (k \<noteq> ''cadence'' \<longrightarrow> map_of (criteria st') k = map_of (criteria st) k
                \<and> map_of (criteria_details st') k = map_of (criteria_details st) k)"
  using assms unfolding cadence_check_def Let_def
  by (auto split: sum.splits option.splits if_splits simp: update_conv')

subsection \<open>Monotonicity criterion in a report\<close>

lemma validate_power_section:
  assumes "fst (validate_ramp_test df p t c) = Inr r"
  shows "\<exists>st2. power_check (table (resolve_columns df p t c)) (power_column (resolve_columns df p t c))
               (has_power (resolve_columns df p t c))
               (duration_check (n_rows (table (resolve_columns df p t c))) initial) = Inr st2
         \<and> recommendations r = recommendations st2
         \<and> (\<exists>ws. warnings r = warnings st2 @ ws
                 \<and> list_all (\<lambda>w. (\<exists>g. w = Data_gap g) \<or> w = Cadence_out_of_range) ws)
         \<and> map_of (criteria r) ''steps_count'' = map_of (criteria st2) ''steps_count''
         \<and> map_of (criteria r) ''monotonicity'' = map_of (criteria st2) ''monotonicity''
         \<and> map_of (criteria r) ''power_stability'' = map_of (criteria st2) ''power_stability''
         \<and> map_of (criteria_details r) ''steps_count'' = map_of (criteria_details st2) ''steps_count''
         \<and> map_of (criteria_details r) ''monotonicity'' = map_of (criteria_details st2) ''monotonicity''
         \<and> map_of (criteria_details r) ''power_stability'' = map_of (criteria_details st2) ''power_stability''"
proof -
  from validate_report[OF assms] obtain st2 st3 st4 where
    a: "power_check (table (resolve_columns df p t c)) (power_column (resolve_columns df p t c))
        (has_power (resolve_columns df p t c))
        (duration_check (n_rows (table (resolve_columns df p t c))) initial) = Inr st2"
    and b: "time_check (table (resolve_columns df p t c)) (time_column (resolve_columns df p t c))
        (has_time (resolve_columns df p t c)) st2 = Inr st3"
    and c: "cadence_check (table (resolve_columns df p t c)) (cadence_column (resolve_columns df p t c))
        (has_cadence (resolve_columns df p t c)) st3 = Inr st4"
    and r: "criteria r = criteria st4" "criteria_details r = criteria_details st4"
       "recommendations r = recommendations st4" "warnings r = warnings st4"
    by blast
  note tf = time_check_frame[OF b]
  note cf = cadence_check_frame_all[OF c]
  from tf obtain ws3 where w3: "warnings st3 = warnings st2 @ ws3"
    "list_all (\<lambda>w. \<exists>g. w = Data_gap g) ws3" by blast
  from cf obtain ws4 where w4: "warnings st4 = warnings st3 @ ws4"
    "list_all (\<lambda>w. w = Cadence_out_of_range) ws4" by blast
  have w: "warnings r = warnings st2 @ (ws3 @ ws4)
           \<and> list_all (\<lambda>w. (\<exists>g. w = Data_gap g) \<or> w = Cadence_out_of_range) (ws3 @ ws4)"
    using w3 w4 r(4) by (auto simp: list_all_iff)
  have rec: "recommendations r = recommendations st2"
    using tf cf r(3) by simp
  have k: "map_of (criteria r) k = map_of (criteria st2) k
           \<and> map_of (criteria_details r) k = map_of (criteria_details st2) k"
    if "k \<noteq> ''data_gaps''" "k \<noteq> ''cadence''" for k
    using tf[of k] cf[of k] that r(1,2) by simp
  have "map_of (criteria r) ''steps_count'' = map_of (criteria st2) ''steps_count''"
       "map_of (criteria r) ''monotonicity'' = map_of (criteria st2) ''monotonicity''"
       "map_of (criteria r) ''power_stability'' = map_of (criteria st2) ''power_stability''"
       "map_of (criteria_details r) ''steps_count'' = map_of (criteria_details st2) ''steps_count''"
       "map_of (criteria_details r) ''monotonicity'' = map_of (criteria_details st2) ''monotonicity''"
       "map_of (criteria_details r) ''power_stability'' = map_of (criteria_details st2) ''power_stability''"
    using k[of "''steps_count''"] k[of "''monotonicity''"] k[of "''power_stability''"] by simp_all
  with a rec w show ?thesis by blast
qed

lemma zigzag_monotonicity: "spec_monotonicity (smooth 3 zigzag_power) = 1/2"
  by code_simp

text \<open>
  Claim C3, as amended. A power array shorter than the smoothing window scores 0.0. An
  array at least as long as the window scores 1.0 when its smoothed series has no
  significant transition (no consecutive difference above 1 in absolute value), as a flat
  signal does, and otherwise the number of positive significant differences divided by
  the number of significant differences. The monotonicity criterion passes exactly when
  the score of the power column is at least 0.70.
\<close>

theorem monotonicity_score:
  assumes "length short < window" and "window \<le> length pw" and "0 < w" and "w \<le> n"
    and "fst (validate_ramp_test df p t c) = Inr r"
  shows "calculate_monotonicity short window = 0
         \<and> calculate_monotonicity pw window = spec_monotonicity (smooth window pw)
         \<and> calculate_monotonicity (replicate n (Some x)) w = 1
         \<and> (if has_power (resolve_columns df p t c)
             then (\<exists>col. select (table (resolve_columns df p t c))
                                (power_column (resolve_columns df p t c)) = Inr col
                     \<and> map_of (criteria r) ''monotonicity''
                         = Some (calculate_monotonicity col 30 \<ge> 7/10))
             else map_of (criteria r) ''monotonicity'' = Some False)"
proof -
  from validate_power_section[OF assms(5)] obtain st2 where
    a: "power_check (table (resolve_columns df p t c)) (power_column (resolve_columns df p t c))
               (has_power (resolve_columns df p t c))
               (duration_check (n_rows (table (resolve_columns df p t c))) initial) = Inr st2"
    and m: "map_of (criteria r) ''monotonicity'' = map_of (criteria st2) ''monotonicity''"
    by blast
  have 4: "if has_power (resolve_columns df p t c)
             then (\<exists>col. select (table (resolve_columns df p t c))
                                (power_column (resolve_columns df p t c)) = Inr col
                     \<and> map_of (criteria r) ''monotonicity''
                         = Some (calculate_monotonicity col 30 \<ge> 7/10))
             else map_of (criteria r) ''monotonicity'' = Some False"
  proof (cases "has_power (resolve_columns df p t c)")
    case True
    with a have "power_check (table (resolve_columns df p t c))
               (power_column (resolve_columns df p t c)) True
               (duration_check (n_rows (table (resolve_columns df p t c))) initial) = Inr st2"
      by simp
    from power_check_present[OF this] obtain col steps where
      "select (table (resolve_columns df p t c)) (power_column (resolve_columns df p t c)) = Inr col"
      "criteria st2 =
         AList.update ''power_stability'' (f_le (calculate_power_stability col steps) (15/100))
           (AList.update ''monotonicity'' (calculate_monotonicity col 30 \<ge> 7/10)
             (AList.update ''steps_count'' (3 \<le> length steps \<and> length steps \<le> 20)
                (criteria (duration_check (n_rows (table (resolve_columns df p t c))) initial))))"
      by blast
    then show ?thesis using True m by (auto simp: update_conv')
  next
    case False
    with a have "power_check (table (resolve_columns df p t c))
               (power_column (resolve_columns df p t c)) False
               (duration_check (n_rows (table (resolve_columns df p t c))) initial) = Inr st2"
      by simp
    from power_check_absent[OF this] show ?thesis
      using False m by (simp add: update_conv')
  qed
  show ?thesis
    using calculate_monotonicity_short[OF assms(1)] calculate_monotonicity_spec[OF assms(2)]
          calculate_monotonicity_flat[OF assms(3,4)] 4
    by blast
qed

theorem monotonicity_score_witness:
  "calculate_monotonicity [Some 1] 3 = 0
   \<and> calculate_monotonicity zigzag_power 3 = 1/2
   \<and> calculate_monotonicity (replicate 4 (Some 200)) 2 = 1
   \<and> map_of (criteria short_power_report) ''monotonicity'' = Some False"
proof -
  have 1: "length [Some (1::real)] < 3" by simp
  have 2: "3 \<le> length zigzag_power" by (simp add: zigzag_power_def)
  have 3: "(0::nat) < 2" "(2::nat) \<le> 4" by simp_all
  have "map_of (criteria short_power_report) ''monotonicity'' = Some False"
    by (simp add: short_power_report_def)
  then show ?thesis
    using monotonicity_score[OF 1 2 3 validate_short_power, of 200]
    by (simp add: zigzag_monotonicity)
qed

theorem monotonicity_short_flat_counterexample:
  "calculate_monotonicity (replicate 29 (Some 200)) 30 = 0
   \<and> significant (smooth 30 (replicate 29 (Some 200))) = []"
  by code_simp

subsection \<open>Power stability scorer\<close>

lemma collect_cvs_filter:
  "collect_cvs pw steps = map (step_cv pw) (filter (qualifies pw) steps)"
  by (induction steps) (simp_all add: Let_def qualifies_def step_cv_def)

lemma calculate_power_stability_spec:
  "calculate_power_stability pw steps = spec_power_stability pw steps"
  by (simp add: calculate_power_stability_def spec_power_stability_def collect_cvs_filter Let_def)

lemma duration_check_messages:
  "recommendations (duration_check n initial)
     = (if real n < 300 then [Test_too_short (real n / 60)] else [])
   \<and> warnings (duration_check n initial)
     = (if real n < 300 then [] else if real n > 3600 then [Test_very_long (real n / 60)] else [])"
  by (simp add: duration_check_def initial_def Let_def cfg_values)

text \<open>
  Claim C5. The power stability scorer returns 1.0 for an empty step list and 0.0 when
  there are steps but none has more than one sample and a positive mean; otherwise it
  returns the mean, over the steps that qualify, of the standard deviation of the step's
  power divided by its mean. The \<open>power_stability\<close> criterion passes exactly when the
  returned value is at most 0.15, and a larger value adds a warning and no
  recommendation.
\<close>

theorem power_stability_score:
  assumes "fst (validate_ramp_test df p t c) = Inr r"
    and "has_power (resolve_columns df p t c)"
  shows "calculate_power_stability pw steps = spec_power_stability pw steps
         \<and> (\<exists>col found.
               select (table (resolve_columns df p t c))
                      (power_column (resolve_columns df p t c)) = Inr col
               \<and> detect_power_steps col 30 = Inr found
               \<and> map_of (criteria r) ''power_stability''
                     = Some (f_le (calculate_power_stability col found) (15/100))
               \<and> (High_power_variability
                      (map_option (\<lambda>x. x * 100) (calculate_power_stability col found))
                        \<in> set (warnings r)
                    \<longleftrightarrow> f_gt (calculate_power_stability col found) (15/100)))
         \<and> (\<forall>v. High_power_variability v \<notin> set (recommendations r))"
proof -
  let ?st1 = "duration_check (n_rows (table (resolve_columns df p t c))) initial"
  from validate_power_section[OF assms(1)] obtain st2 ws where
    a: "power_check (table (resolve_columns df p t c)) (power_column (resolve_columns df p t c))
               (has_power (resolve_columns df p t c)) ?st1 = Inr st2"
    and rec: "recommendations r = recommendations st2"
    and w: "warnings r = warnings st2 @ ws"
    and ws: "list_all (\<lambda>w. (\<exists>g. w = Data_gap g) \<or> w = Cadence_out_of_range) ws"
    and k: "map_of (criteria r) ''power_stability'' = map_of (criteria st2) ''power_stability''"
    by blast
  from a assms(2) have "power_check (table (resolve_columns df p t c))
               (power_column (resolve_columns df p t c)) True ?st1 = Inr st2"
    by simp
  from power_check_present[OF this] obtain col found where
    sel: "select (table (resolve_columns df p t c))
                 (power_column (resolve_columns df p t c)) = Inr col"
    and det: "detect_power_steps col 30 = Inr found"
    and cr: "criteria st2 =
         AList.update ''power_stability'' (f_le (calculate_power_stability col found) (15/100))
           (AList.update ''monotonicity'' (calculate_monotonicity col 30 \<ge> 7/10)
             (AList.update ''steps_count'' (3 \<le> length found \<and> length found \<le> 20)
                (criteria ?st1)))"
    and re: "recommendations st2 =
         recommendations ?st1
           @ (if length found < 3 then [Too_few_steps (int (length found))] else [])
           @ (if calculate_monotonicity col 30 < 7/10
                then [Low_monotonicity (calculate_monotonicity col 30 * 100)] else [])"
    and wa: "warnings st2 =
         warnings ?st1
           @ (if f_gt (calculate_power_stability col found) (15/100)
                then [High_power_variability
                        (map_option (\<lambda>x. x * 100) (calculate_power_stability col found))]
                else [])"
    by blast
  note dm = duration_check_messages[of "n_rows (table (resolve_columns df p t c))"]
  have c: "map_of (criteria r) ''power_stability''
             = Some (f_le (calculate_power_stability col found) (15/100))"
    unfolding k cr by (simp add: update_conv')
  have nw1: "High_power_variability v \<notin> set (warnings ?st1)" for v
    using dm by (auto split: if_splits)
  have nws: "High_power_variability v \<notin> set ws" for v
    using ws by (auto simp: list_all_iff)
  have wi: "High_power_variability
              (map_option (\<lambda>x. x * 100) (calculate_power_stability col found)) \<in> set (warnings r)
            \<longleftrightarrow> f_gt (calculate_power_stability col found) (15/100)"
    unfolding w wa using nw1 nws by simp
  have nr: "\<forall>v. High_power_variability v \<notin> set (recommendations r)"
    unfolding rec re using dm by (auto split: if_splits)
  show ?thesis
    using calculate_power_stability_spec sel det c wi nr by blast
qed

lemma power_stability_examples:
  "calculate_power_stability [Some 1, Some 3] [] = Some 1
   \<and> calculate_power_stability [Some 0, Some 0] one_step = Some 0
   \<and> calculate_power_stability [Some 1, Some 3] one_step = Some (1/2)"
  by (simp add: calculate_power_stability_def one_step_def slice_def np_mean_def np_std_def
                f_gt_def f_div_def Let_def power2_eq_square)

theorem power_stability_score_witness:
  "spec_power_stability [Some 1, Some 3] one_step = Some (1/2)
   \<and> map_of (criteria short_power_report) ''power_stability'' = Some False
   \<and> High_power_variability (Some 100) \<in> set (warnings short_power_report)
   \<and> High_power_variability (Some 100) \<notin> set (recommendations short_power_report)"
proof -
  have h: "has_power (resolve_columns short_power_table ''watts'' ''time'' (Some ''cadence''))"
    by (simp add: resolve_short_power)
  have "calculate_power_stability [Some 1, Some 3] one_step = Some (1/2)"
    using power_stability_examples by blast
  moreover have "map_of (criteria short_power_report) ''power_stability'' = Some False"
    "High_power_variability (Some 100) \<in> set (warnings short_power_report)"
    by (simp_all add: short_power_report_def)
  ultimately show ?thesis
    using power_stability_score[OF validate_short_power h, of "[Some 1, Some 3]" one_step]
    by simp
qed

subsection \<open>Column resolver and repeated calls\<close>

lemma lower_not_upper: "list_all (\<lambda>l. l \<notin> set upper_chars) lower_chars"
  by code_simp

lemma letters_not_space:
  "list_all (\<lambda>c. \<not> is_space c) upper_chars \<and> list_all (\<lambda>c. \<not> is_space c) lower_chars"
  by code_simp

lemma py_lower_char_cases:
  "py_lower_char c = c
   \<or> (c \<in> set upper_chars \<and> py_lower_char c \<in> set lower_chars)"
proof (cases "map_of (zip upper_chars lower_chars) c")
  case None
  then show ?thesis by (simp add: py_lower_char_def)
next
  case (Some l)
  then have "(c, l) \<in> set (zip upper_chars lower_chars)" by (rule map_of_SomeD)
  then have "c \<in> set upper_chars" "l \<in> set lower_chars"
    by (auto dest: set_zip_leftD set_zip_rightD)
  then show ?thesis using Some by (simp add: py_lower_char_def)
qed

lemma py_lower_char_fixed: "l \<in> set lower_chars \<Longrightarrow> py_lower_char l = l"
proof -
  assume "l \<in> set lower_chars"
  then have "l \<notin> set upper_chars" using lower_not_upper by (auto simp: list_all_iff)
  then have "l \<notin> fst ` set (zip upper_chars lower_chars)"
    by (auto dest: set_zip_leftD)
  then have "map_of (zip upper_chars lower_chars) l = None"
    by (simp add: map_of_eq_None_iff)
  then show ?thesis by (simp add: py_lower_char_def)
qed

lemma py_lower_char_idem: "py_lower_char (py_lower_char c) = py_lower_char c"
  using py_lower_char_cases[of c] py_lower_char_fixed by auto

lemma is_space_lower: "is_space (py_lower_char c) = is_space c"
  using py_lower_char_cases[of c] letters_not_space by (auto simp: list_all_iff)

lemma py_lower_idem: "py_lower (py_lower s) = py_lower s"
  by (simp add: py_lower_def py_lower_char_idem)

lemma py_strip_lower: "py_strip (py_lower s) = py_lower (py_strip s)"
proof -
  have c: "is_space \<circ> py_lower_char = is_space" by (simp add: fun_eq_iff is_space_lower)
  show ?thesis
    by (simp add: py_strip_def py_lower_def dropWhile_map rev_map c)
qed

lemma rstrip_prefix:
  "\<exists>v. t = rev (dropWhile P (rev t)) @ v"
proof -
  have "rev (takeWhile P (rev t) @ dropWhile P (rev t)) = rev (rev t)"
    by (simp only: takeWhile_dropWhile_id)
  then have "rev (dropWhile P (rev t)) @ rev (takeWhile P (rev t)) = t"
    by (simp only: rev_append rev_rev_ident)
  then show ?thesis by metis
qed

lemma py_strip_idem: "py_strip (py_strip s) = py_strip s"
proof -
  define t where "t = dropWhile is_space s"
  define u where "u = rev (dropWhile is_space (rev t))"
  have su: "py_strip s = u" by (simp add: py_strip_def t_def u_def)
  have t: "t = [] \<or> \<not> is_space (hd t)"
    unfolding t_def using hd_dropWhile[of is_space s] by blast
  obtain v where v: "t = u @ v" unfolding u_def using rstrip_prefix by blast
  have 1: "dropWhile is_space u = u"
  proof (cases "u = []")
    case True
    then show ?thesis by simp
  next
    case False
    then have "hd u = hd t" "t \<noteq> []" using v by auto
    then show ?thesis using t by (simp add: dropWhile_eq_self_iff)
  qed
  have "rev u = dropWhile is_space (rev t)" by (simp add: u_def)
  then have 2: "dropWhile is_space (rev u) = rev u" by simp
  show ?thesis unfolding su by (simp add: py_strip_def 1 2)
qed

lemma normalize_label_idem:
  "py_strip (py_lower (py_strip (py_lower l))) = py_strip (py_lower l)"
  by (simp add: py_strip_lower[symmetric] py_lower_idem py_strip_idem)

lemma lower_strip_labels_idem: "lower_strip_labels (lower_strip_labels df) = lower_strip_labels df"
  by (simp add: lower_strip_labels_def normalize_label_idem split_def comp_def)

lemma resolve_normalized:
  "resolve_columns (lower_strip_labels df) p t c = resolve_columns df p t c"
  by (simp add: resolve_columns_def lower_strip_labels_idem)

lemma validate_table:
  "snd (validate_ramp_test df p t c) = (if string_labels df then lower_strip_labels df else df)"
  by (simp add: validate_ramp_test_def normalize_columns_def Let_def)

lemma string_labels_kept: "string_labels (lower_strip_labels df) = string_labels df"
  by (simp add: lower_strip_labels_def)

lemma normalize_string_labels:
  "string_labels df \<Longrightarrow> normalize_columns df = Inr (lower_strip_labels df)"
  by (simp add: normalize_columns_def)

lemma normalize_normalized:
  "string_labels df \<Longrightarrow> normalize_columns (lower_strip_labels df) = Inr (lower_strip_labels df)"
  by (simp add: normalize_columns_def string_labels_kept lower_strip_labels_idem)

text \<open>
  Claim C9. A second call of the validator on the table as the first call left it, with
  the same column names, gives the same outcome as the first call: the same status,
  criteria, details, quality score, recommendations and warnings, in the same order.
\<close>

theorem validate_twice:
  "validate_ramp_test (snd (validate_ramp_test df p t c)) p t c = validate_ramp_test df p t c"
proof (cases "string_labels df")
  case True
  have e: "snd (validate_ramp_test df p t c) = lower_strip_labels df"
    using True by (simp add: validate_table)
  have "validate_ramp_test (lower_strip_labels df) p t c = validate_ramp_test df p t c"
    by (simp only: validate_ramp_test_def resolve_normalized normalize_normalized[OF True]
                   normalize_string_labels[OF True] sum.case)
  then show ?thesis by (simp only: e)
next
  case False
  then show ?thesis by (simp add: validate_table)
qed

theorem validate_twice_witness:
  "validate_ramp_test (snd (validate_ramp_test short_power_table ''watts'' ''time'' (Some ''cadence'')))
       ''watts'' ''time'' (Some ''cadence'')
     = validate_ramp_test short_power_table ''watts'' ''time'' (Some ''cadence'')"
  by (rule validate_twice)

lemma has_column_normalized:
  "has_column (lower_strip_labels df) name
     = list_ex (\<lambda>l. py_strip (py_lower l) = name) (map fst (columns df))"
  by (auto simp: has_column_def lower_strip_labels_def list_ex_iff image_iff split_def)

lemma stripped_name_matches:
  assumes "py_strip name = name"
  shows "(py_strip (py_lower l) = py_lower name) = matches l name"
  using assms by (simp add: matches_def py_strip_lower)

lemma resolve_columns_rule:
  "has_power (resolve_columns df p t c)
     = list_ex (\<lambda>l. py_strip (py_lower l) = py_lower p) (map fst (columns df))
   \<and> has_time (resolve_columns df p t c)
     = list_ex (\<lambda>l. py_strip (py_lower l) = py_lower t) (map fst (columns df))
   \<and> has_cadence (resolve_columns df p t c)
     = (case c of None \<Rightarrow> False
        | Some cad \<Rightarrow> cad \<noteq> []
            \<and> list_ex (\<lambda>l. py_strip (py_lower l) = py_lower cad) (map fst (columns df)))"
  by (cases c) (auto simp: resolve_columns_def Let_def has_column_normalized py_lower_def)

lemma trimmed_name_recognized:
  "py_strip p = p \<Longrightarrow> has_power (resolve_columns df p t c) = spec_has_column df p"
  "py_strip t = t \<Longrightarrow> has_time (resolve_columns df p t c) = spec_has_column df t"
  "py_strip cad = cad \<Longrightarrow> cad \<noteq> [] \<Longrightarrow>
     has_cadence (resolve_columns df p t (Some cad)) = spec_has_column df cad"
  "has_cadence (resolve_columns df p t None) = False"
  "has_cadence (resolve_columns df p t (Some [])) = False"
  using resolve_columns_rule[of df p t c] resolve_columns_rule[of df p t "Some cad"]
        resolve_columns_rule[of df p t None] resolve_columns_rule[of df p t "Some []"]
  by (simp_all add: spec_has_column_def stripped_name_matches)

text \<open>
  Claim C8. A column is recognized as present whenever its label matches the supplied
  name case-insensitively after trimming both. The code trims the labels of the table
  (line 78) and only lower-cases the supplied names (lines 79 to 81), so the claim fails
  for a supplied name with surrounding white space: in the table with the labels
  \<open>Watts\<close>-and-a-blank and \<open>time\<close>, the supplied name \<open>Watts\<close>-and-a-blank, the
  table's own label, matches that label, yet no power column is found and the report is
  the one of a table without power data.
\<close>

theorem untrimmed_name_not_found:
  "spec_has_column short_power_table ''Watts ''
   \<and> has_power (resolve_columns short_power_table ''Watts '' ''time'' (Some ''cadence'')) = False
   \<and> fst (validate_ramp_test short_power_table ''Watts '' ''time'' (Some ''cadence''))
       = Inr time_only_report"
proof -
  have r: "resolve_columns short_power_table ''Watts '' ''time'' (Some ''cadence'') =
     \<lparr>table = \<lparr>columns = [(''watts'', [Some 100, Some 110]), (''time'', [Some 0, Some 1])],
                n_rows = 2, string_labels = True\<rparr>,
      power_column = ''watts '', time_column = ''time'',
      cadence_column = Some ''cadence'', has_power = False, has_time = True, has_cadence = False\<rparr>"
    by (simp add: resolve_columns_def lower_strip_labels_def has_column_def short_power_table_def
                  string_case_simps Let_def)
  have v: "fst (validate_ramp_test short_power_table ''Watts '' ''time'' (Some ''cadence''))
             = Inr time_only_report"
    unfolding validate_ramp_test_def r Let_def
    by (simp add: normalize_columns_def lower_strip_labels_def string_case_simps
          short_power_table_def time_only_report_def duration_check_def power_check_def
          time_check_def cadence_check_def select_def detect_max_gap_def np_max_def f_sub_def
          py_int_def cfg_values calculate_quality_score_def weight_of_def VALIDATION_CRITERIA_def
          py_round1_def classify_def Let_def)
  have m: "spec_has_column short_power_table ''Watts ''"
    by (simp add: spec_has_column_def matches_def short_power_table_def)
  from m r v show ?thesis by simp
qed

subsection \<open>Missing power column\<close>

lemma filter_key_once:
  assumes "length (filter (\<lambda>c. fst c = name) cols) \<le> 1" "(name, col) \<in> set cols"
  shows "filter (\<lambda>c. fst c = name) cols = [(name, col)]"
proof -
  let ?f = "filter (\<lambda>c. fst c = name) cols"
  have m: "(name, col) \<in> set ?f" using assms(2) by simp
  then obtain x xs where e: "?f = x # xs" by (cases ?f) auto
  with assms(1) have "xs = []" by simp
  with e m show ?thesis by simp
qed

lemma select_once:
  assumes "length (filter (\<lambda>c. fst c = name) (columns df)) \<le> 1" "has_column df name"
  shows "\<exists>col. select df name = Inr col \<and> (name, col) \<in> set (columns df)"
proof -
  from assms(2) obtain col where c: "(name, col) \<in> set (columns df)"
    by (auto simp: has_column_def)
  then have "select df name = Inr col"
    by (simp add: select_def filter_key_once[OF assms(1) c])
  with c show ?thesis by blast
qed

lemma selected_once_normalized:
  "selected_once df name \<Longrightarrow>
   length (filter (\<lambda>c. fst c = py_lower name) (columns (lower_strip_labels df))) \<le> 1"
  by (simp add: selected_once_def lower_strip_labels_def filter_map comp_def split_def)

lemma complete_map_Some:
  "list_all (\<lambda>x. x \<noteq> None) col \<Longrightarrow> \<exists>ts. col = map Some ts"
proof (induction col)
  case Nil
  then show ?case by simp
next
  case (Cons x col)
  then obtain ts v where "col = map Some ts" "x = Some v" by auto
  then have "x # col = map Some (v # ts)" by simp
  then show ?case by (rule exI)
qed

lemma resolve_fields:
  "table (resolve_columns df p t c) = lower_strip_labels df"
  "power_column (resolve_columns df p t c) = py_lower p"
  "time_column (resolve_columns df p t c) = py_lower t"
  "has_power (resolve_columns df p t c) = has_column (lower_strip_labels df) (py_lower p)"
  "has_time (resolve_columns df p t c) = has_column (lower_strip_labels df) (py_lower t)"
  by (simp_all add: resolve_columns_def Let_def)

lemma has_cadence_name:
  assumes "has_cadence (resolve_columns df p t c)"
  shows "\<exists>cad. c = Some cad \<and> cadence_column (resolve_columns df p t c) = Some (py_lower cad)
               \<and> has_column (lower_strip_labels df) (py_lower cad)"
  using assms by (auto simp: resolve_columns_def Let_def split: option.splits if_splits)

lemma time_check_returns:
  assumes "selected_once df t" "complete_column df t"
  shows "\<exists>st'. time_check (lower_strip_labels df) (py_lower t)
                  (has_column (lower_strip_labels df) (py_lower t)) st = Inr st'"
proof (cases "has_column (lower_strip_labels df) (py_lower t)")
  case False
  then show ?thesis by (simp add: time_check_def)
next
  case True
  from select_once[OF selected_once_normalized[OF assms(1)] True] obtain col where

    s: "select (lower_strip_labels df) (py_lower t) = Inr col"
    and m: "(py_lower t, col) \<in> set (columns (lower_strip_labels df))" by blast
  from m obtain l where "(l, col) \<in> set (columns df)" "py_strip (py_lower l) = py_lower t"
    by (auto simp: lower_strip_labels_def)
  then have "list_all (\<lambda>x. x \<noteq> None) col"
    using assms(2) by (auto simp: complete_column_def list_all_iff)
  then obtain ts where "col = map Some ts" using complete_map_Some by blast
  then have "detect_max_gap col = Inr (py_int (spec_max_gap ts))"
    by (simp add: detect_max_gap_spec)
  then show ?thesis using True s by (simp add: time_check_def Let_def)
qed

lemma cadence_check_criteria:
  assumes "cadence_check df name_opt present st = Inr st'"
  shows "if present
         then (\<exists>name col. name_opt = Some name \<and> select df name = Inr col
                  \<and> criteria st' = AList.update ''cadence'' (cadence_passes col) (criteria st))
         else criteria st' = AList.update ''cadence'' True (criteria st)"
  using assms unfolding cadence_check_def Let_def cadence_passes_def
  by (auto split: sum.splits option.splits if_splits simp: cfg_values)

lemma cadence_check_returns:
  assumes "present \<longrightarrow> (\<exists>name col. name_opt = Some name \<and> select df name = Inr col)"
  shows "\<exists>st'. cadence_check df name_opt present st = Inr st'"
  using assms unfolding cadence_check_def Let_def by auto

lemma validate_returns:
  assumes "string_labels df"
    and "power_check (table (resolve_columns df p t c)) (power_column (resolve_columns df p t c))
               (has_power (resolve_columns df p t c))
               (duration_check (n_rows (table (resolve_columns df p t c))) initial) = Inr st2"
    and "time_check (table (resolve_columns df p t c)) (time_column (resolve_columns df p t c))
               (has_time (resolve_columns df p t c)) st2 = Inr st3"
    and "cadence_check (table (resolve_columns df p t c)) (cadence_column (resolve_columns df p t c))
               (has_cadence (resolve_columns df p t c)) st3 = Inr st4"
  shows "\<exists>r. fst (validate_ramp_test df p t c) = Inr r"
proof -
  have n: "normalize_columns df = Inr (table (resolve_columns df p t c))"
    using assms(1) by (simp add: normalize_columns_def resolve_fields)
  show ?thesis
    using assms(2-4) unfolding validate_ramp_test_def n by (simp add: Let_def initial_def)
qed

lemma validate_non_string_labels:
  "\<not> string_labels df \<Longrightarrow> validate_ramp_test df p t c = (Inl AttributeError, df)"
  by (simp add: validate_ramp_test_def normalize_columns_def)

lemma duration_check_criteria:
  "criteria (duration_check n initial) = [(''duration'', 300 \<le> n \<and> n \<le> 3600)]
   \<and> criteria_details (duration_check n initial) =
       [(''duration'', [(''value'', IntV (int n)),
                        (''value_display'', TextV (Minutes_1f (real n / 60))),
                        (''expected'', TextV (Minutes_range 5 60))])]"
  by (simp add: duration_check_def initial_def Let_def cfg_values)

text \<open>
  Claim C4, as amended. Take a table without the power column whose column labels are
  strings, in which the supplied time name, and the supplied cadence name if there is one,
  each select at most one column, and whose time column (if there is one) has no missing
  value. The validator returns a report. In it the \<open>steps_count\<close>, \<open>monotonicity\<close> and
  \<open>power_stability\<close> criteria are False; \<open>steps_count\<close> carries the detail entry with
  the \<open>error\<close> field and no \<open>value_display\<close>, while \<open>monotonicity\<close> and
  \<open>power_stability\<close> have no detail entry; the recommendation that power data is
  missing is present; and the \<open>duration\<close>, \<open>data_gaps\<close> and \<open>cadence\<close> criteria are
  evaluated from the row count, the time column and the cadence column alone. Other labels
  of the table may collide freely. A column index that does not hold strings makes line 78
  raise \<^verbatim>\<open>AttributeError\<close>, and a missing timestamp makes \<^verbatim>\<open>int\<close> raise
  \<^verbatim>\<open>ValueError\<close>, so no report is returned there.
\<close>

theorem missing_power_report:
  assumes "string_labels df" and "\<not> has_power (resolve_columns df p t c)"
    and "selected_once df t" and "\<forall>cad. c = Some cad \<longrightarrow> selected_once df cad"
    and "complete_column df t"
  shows "\<exists>r. fst (validate_ramp_test df p t c) = Inr r
      \<and> map_of (criteria r) ''steps_count'' = Some False
      \<and> map_of (criteria r) ''monotonicity'' = Some False
      \<and> map_of (criteria r) ''power_stability'' = Some False
      \<and> map_of (criteria_details r) ''steps_count''
           = Some [(''value'', IntV 0), (''error'', TextV No_power_column)]
      \<and> map_of (criteria_details r) ''monotonicity'' = None
      \<and> map_of (criteria_details r) ''power_stability'' = None
      \<and> No_power_data \<in> set (recommendations r)
      \<and> map_of (criteria r) ''duration'' = Some (300 \<le> n_rows df \<and> n_rows df \<le> 3600)
      \<and> (if has_time (resolve_columns df p t c)
          then (\<exists>time g. select (table (resolve_columns df p t c))
                                 (time_column (resolve_columns df p t c)) = Inr time
                  \<and> detect_max_gap time = Inr g
                  \<and> map_of (criteria r) ''data_gaps'' = Some (g \<le> 5))
          else map_of (criteria r) ''data_gaps'' = Some True)
      \<and> (if has_cadence (resolve_columns df p t c)
          then (\<exists>name col. cadence_column (resolve_columns df p t c) = Some name
                  \<and> select (table (resolve_columns df p t c)) name = Inr col
                  \<and> map_of (criteria r) ''cadence'' = Some (cadence_passes col))
          else map_of (criteria r) ''cadence'' = Some True)"
proof -
  let ?rc = "resolve_columns df p t c"
  let ?st1 = "duration_check (n_rows (table ?rc)) initial"
  have tb: "table ?rc = lower_strip_labels df" by (simp add: resolve_fields)
  have nr: "n_rows (table ?rc) = n_rows df" by (simp add: tb lower_strip_labels_def)
  obtain st2 where a: "power_check (table ?rc) (power_column ?rc) (has_power ?rc) ?st1 = Inr st2"
    using assms(2) by (simp add: power_check_def)
  then have a': "power_check (table ?rc) (power_column ?rc) False ?st1 = Inr st2"
    using assms(2) by simp
  obtain st3 where b: "time_check (table ?rc) (time_column ?rc) (has_time ?rc) st2 = Inr st3"
    using time_check_returns[OF assms(3,5), of st2] by (auto simp: resolve_fields)
  have "has_cadence ?rc \<longrightarrow>
          (\<exists>name col. cadence_column ?rc = Some name \<and> select (table ?rc) name = Inr col)"
  proof
    assume "has_cadence ?rc"
    from has_cadence_name[OF this] obtain cad where
      n: "c = Some cad" "cadence_column ?rc = Some (py_lower cad)"
         "has_column (lower_strip_labels df) (py_lower cad)" by blast
    from assms(4) n(1) have "selected_once df cad" by blast
    from select_once[OF selected_once_normalized[OF this] n(3)] n(2)
    show "\<exists>name col. cadence_column ?rc = Some name \<and> select (table ?rc) name = Inr col"
      unfolding tb by blast
  qed
  from cadence_check_returns[OF this] obtain st4 where
    c: "cadence_check (table ?rc) (cadence_column ?rc) (has_cadence ?rc) st3 = Inr st4"
    by blast
  from validate_returns[OF assms(1) a b c] obtain r where r: "fst (validate_ramp_test df p t c) = Inr r"
    by blast
  from validate_report[OF r] a b c have
    rc: "criteria r = criteria st4" and rd: "criteria_details r = criteria_details st4"
    and rr: "recommendations r = recommendations st4"
    by auto
  note pa = power_check_absent[OF a']
  note tf = time_check_frame[OF b]
  note cf = cadence_check_frame_all[OF c]
  note dc = duration_check_criteria[of "n_rows (table ?rc)"]
  have k: "map_of (criteria r) k = map_of (criteria st2) k
           \<and> map_of (criteria_details r) k = map_of (criteria_details st2) k"
    if "k \<noteq> ''data_gaps''" "k \<noteq> ''cadence''" for k
    using tf[of k] cf[of k] that rc rd by simp
  have c2: "criteria st2 = [(''duration'', 300 \<le> n_rows df \<and> n_rows df \<le> 3600),
              (''steps_count'', False), (''monotonicity'', False), (''power_stability'', False)]"
    using pa dc by (simp add: nr)
  have d2: "criteria_details st2 =
      [(''duration'', [(''value'', IntV (int (n_rows df))),
                       (''value_display'', TextV (Minutes_1f (real (n_rows df) / 60))),
                       (''expected'', TextV (Minutes_range 5 60))]),
       (''steps_count'', [(''value'', IntV 0), (''error'', TextV No_power_column)])]"
    using pa dc by (simp add: nr)
  have 1: "map_of (criteria r) ''steps_count'' = Some False"
    "map_of (criteria r) ''monotonicity'' = Some False"
    "map_of (criteria r) ''power_stability'' = Some False"
    "map_of (criteria r) ''duration'' = Some (300 \<le> n_rows df \<and> n_rows df \<le> 3600)"
    using k[of "''steps_count''"] k[of "''monotonicity''"] k[of "''power_stability''"]
          k[of "''duration''"] c2 by simp_all
  have 2: "map_of (criteria_details r) ''steps_count''
           = Some [(''value'', IntV 0), (''error'', TextV No_power_column)]"
    "map_of (criteria_details r) ''monotonicity'' = None"
    "map_of (criteria_details r) ''power_stability'' = None"
    using k[of "''steps_count''"] k[of "''monotonicity''"] k[of "''power_stability''"] d2
    by simp_all
  have 3: "No_power_data \<in> set (recommendations r)"
    using pa tf cf rr by simp
  have g3: "map_of (criteria r) ''data_gaps'' = map_of (criteria st3) ''data_gaps''"
    using cf[of "''data_gaps''"] rc by simp
  have 4: "if has_time ?rc
          then (\<exists>time g. select (table ?rc) (time_column ?rc) = Inr time
                  \<and> detect_max_gap time = Inr g
                  \<and> map_of (criteria r) ''data_gaps'' = Some (g \<le> 5))
          else map_of (criteria r) ''data_gaps'' = Some True"
    using time_check_criteria[OF b] unfolding g3
    by (auto simp: update_conv' split: if_splits)
  have 5: "if has_cadence ?rc
          then (\<exists>name col. cadence_column ?rc = Some name
                  \<and> select (table ?rc) name = Inr col
                  \<and> map_of (criteria r) ''cadence'' = Some (cadence_passes col))
          else map_of (criteria r) ''cadence'' = Some True"
    using cadence_check_criteria[OF c] unfolding rc
    by (auto simp: update_conv' split: if_splits)
  show ?thesis using r 1 2 3 4 5 by blast
qed

theorem missing_power_report_witness:
  "fst (validate_ramp_test time_only_table ''watts'' ''time'' (Some ''cadence'')) = Inr time_only_report
   \<and> map_of (criteria time_only_report) ''steps_count'' = Some False
   \<and> map_of (criteria time_only_report) ''monotonicity'' = Some False
   \<and> map_of (criteria time_only_report) ''power_stability'' = Some False
   \<and> map_of (criteria_details time_only_report) ''steps_count''
         = Some [(''value'', IntV 0), (''error'', TextV No_power_column)]
   \<and> No_power_data \<in> set (recommendations time_only_report)
   \<and> map_of (criteria time_only_report) ''duration'' = Some False
   \<and> map_of (criteria time_only_report) ''data_gaps'' = Some True
   \<and> map_of (criteria time_only_report) ''cadence'' = Some True"
proof -
  have 1: "\<not> has_power (resolve_columns time_only_table ''watts'' ''time'' (Some ''cadence''))"
    by (simp add: resolve_time_only)
  have 0: "string_labels time_only_table"
    by (simp add: time_only_table_def)
  have 2: "selected_once time_only_table ''time''"
    by (simp add: selected_once_def time_only_table_def string_case_simps)
  have 3: "\<forall>cad. Some ''cadence'' = Some cad \<longrightarrow> selected_once time_only_table cad"
    by (simp add: selected_once_def time_only_table_def string_case_simps)
  have 4: "complete_column time_only_table ''time''"
    by (simp add: complete_column_def time_only_table_def)
  from missing_power_report[OF 0 1 2 3 4] obtain r where
    r: "fst (validate_ramp_test time_only_table ''watts'' ''time'' (Some ''cadence'')) = Inr r"
    and p: "map_of (criteria r) ''steps_count'' = Some False"
      "map_of (criteria r) ''monotonicity'' = Some False"
      "map_of (criteria r) ''power_stability'' = Some False"
      "map_of (criteria_details r) ''steps_count''
         = Some [(''value'', IntV 0), (''error'', TextV No_power_column)]"
      "No_power_data \<in> set (recommendations r)"
    by blast
  from r have e: "r = time_only_report" by (simp add: validate_time_only)
  have "map_of (criteria time_only_report) ''duration'' = Some False"
    "map_of (criteria time_only_report) ''data_gaps'' = Some True"
    "map_of (criteria time_only_report) ''cadence'' = Some True"
    by (simp_all add: time_only_report_def)
  with p validate_time_only show ?thesis unfolding e by blast
qed

theorem missing_power_details_counterexample:
  "fst (validate_ramp_test time_only_table ''watts'' ''time'' (Some ''cadence'')) = Inr time_only_report
   \<and> map_of (criteria time_only_report) ''monotonicity'' = Some False
   \<and> map_of (criteria time_only_report) ''power_stability'' = Some False
   \<and> map_of (criteria_details time_only_report) ''monotonicity'' = None
   \<and> map_of (criteria_details time_only_report) ''power_stability'' = None"
  using validate_time_only by (simp add: time_only_report_def)

end
